theory Spec2Isabelle
  imports Main
begin

section \<open>Data model\<close>

text \<open>
  The error codes of \<^verbatim>\<open>enum class EError\<close> (LEvent.h).
\<close>

datatype EError = OK | EventAlreadyDefined | FailedToMatchEventType
  | ModifyingCallbackListDuringBroadcast | CallbackAlreadyAdded | EventsBlocked

text \<open>
  An event class \<^verbatim>\<open>LEvent<DelegateFactory, ReturnType, Args...>\<close> is identified by its
  template arguments. C++ types are represented by their names; the signature is what
  \<^verbatim>\<open>typeid\<close> distinguishes.
\<close>

type_synonym ctype = string

record Signature =
  ReturnType :: ctype
  Args :: "ctype list"

definition is_void :: "Signature \<Rightarrow> bool" where
  "is_void sig = (ReturnType sig = ''void'')"

text \<open>
  A non-null \<^verbatim>\<open>std::shared_ptr<T>\<close> to an object that is never modified after its
  construction: the address (what \<^verbatim>\<open>==\<close> on two shared pointers compares) and the
  object pointed to. A null pointer is \<open>None\<close> of the option type.
\<close>

record 'd shared_ptr =
  Addr :: nat
  Pointee :: 'd

definition ptr_eq :: "'d shared_ptr \<Rightarrow> 'd shared_ptr option \<Rightarrow> bool" where
  "ptr_eq Data DelegatePtr =
     (case DelegatePtr of None \<Rightarrow> False | Some q \<Rightarrow> Addr Data = Addr q)"

text \<open>
  The template template parameter \<^verbatim>\<open>DelegateFactory\<close>: what LEvent uses of it.
  \<open>'f\<close> is what a listener is made from (a free function, an object with a member
  function, a callable), \<open>'d\<close> the factory's \<^verbatim>\<open>Delegate\<close> type, \<open>'a\<close> the arguments of
  a call, \<open>'r\<close> the returned value and \<open>'w\<close> the state outside the event that a listener
  reads and writes (reference arguments, globals, the console).
\<close>

record ('f, 'd, 'a, 'r, 'w) DelegateFactory =
  MakeDelegate :: "'f \<Rightarrow> int \<Rightarrow> 'd"
  PriorityOf :: "'d \<Rightarrow> int"
  CallOp :: "'d \<Rightarrow> 'a \<Rightarrow> 'w \<Rightarrow> 'r \<times> 'w"
  EqOp :: "'d \<Rightarrow> 'd \<Rightarrow> bool"

text \<open>
  \<^verbatim>\<open>SimpleDelegateFactory<ReturnType, Args...>::Delegate\<close> (SimpleDelegate.h): a
  \<^verbatim>\<open>std::function\<close> and a priority. Its \<^verbatim>\<open>operator==\<close> returns false for every
  argument.
\<close>

record ('a, 'r, 'w) Delegate =
  Callee :: "'a \<Rightarrow> 'w \<Rightarrow> 'r \<times> 'w"
  Priority :: int

definition SimpleDelegateFactory ::
  "('a \<Rightarrow> 'w \<Rightarrow> 'r \<times> 'w, ('a, 'r, 'w) Delegate, 'a, 'r, 'w) DelegateFactory" where
  "SimpleDelegateFactory =
     \<lparr> MakeDelegate = (\<lambda>InCallee InPriority. \<lparr> Callee = InCallee, Priority = InPriority \<rparr>),
       PriorityOf = Priority,
       CallOp = (\<lambda>d InArgs. Callee d InArgs),
       EqOp = (\<lambda>d Other. False) \<rparr>"

text \<open>
  \<^verbatim>\<open>class LEvent\<close>: the template arguments of the instantiation, the vector of delegates
  and the broadcasting flag. \<^verbatim>\<open>LEvent() = default\<close> gives no delegate and a cleared flag.
\<close>

record 'd LEvent =
  Sig :: Signature
  Delegates :: "'d shared_ptr list"
  bIsBroadcasting :: bool

definition LEvent_new :: "Signature \<Rightarrow> 'd LEvent" where
  "LEvent_new sig = \<lparr> Sig = sig, Delegates = [], bIsBroadcasting = False \<rparr>"

definition IsBroadcasting :: "'d LEvent \<Rightarrow> bool" where
  "IsBroadcasting e = bIsBroadcasting e"

section \<open>Vector operations\<close>

text \<open>
  \<^verbatim>\<open>std::ranges::find_if\<close> on a vector returns the position of the first element that
  satisfies the predicate, and the end position (the length) when there is none.
  \<^verbatim>\<open>insert\<close> puts an element before a position, \<^verbatim>\<open>erase\<close> removes the element at a
  position.
\<close>

fun find_if :: "('x \<Rightarrow> bool) \<Rightarrow> 'x list \<Rightarrow> nat" where
  "find_if P [] = 0"
| "find_if P (x # xs) = (if P x then 0 else Suc (find_if P xs))"

definition vector_insert :: "nat \<Rightarrow> 'x \<Rightarrow> 'x list \<Rightarrow> 'x list" where
  "vector_insert i x xs = take i xs @ x # drop i xs"

definition vector_erase :: "nat \<Rightarrow> 'x list \<Rightarrow> 'x list" where
  "vector_erase i xs = take i xs @ drop (Suc i) xs"

section \<open>LEvent\<close>

text \<open>
  \<^verbatim>\<open>LEvent::InsertDelegate\<close>: the duplicate scan with the factory's equality, then the
  insertion before the first delegate of lower priority.
\<close>

definition InsertDelegate ::
  "('f, 'd, 'a, 'r, 'w) DelegateFactory \<Rightarrow> 'd LEvent \<Rightarrow> 'd shared_ptr \<Rightarrow> bool
     \<Rightarrow> bool \<times> 'd LEvent" where
  "InsertDelegate F e DelegatePtr AllowDuplicates =
     (if \<not> AllowDuplicates \<and>
         find_if (\<lambda>Data. EqOp F (Pointee Data) (Pointee DelegatePtr)) (Delegates e)
           \<noteq> length (Delegates e)
      then (False, e)
      else
        let InsertIt = find_if (\<lambda>Data. PriorityOf F (Pointee Data)
                                         < PriorityOf F (Pointee DelegatePtr)) (Delegates e)
        in (True, e\<lparr> Delegates := vector_insert InsertIt DelegatePtr (Delegates e) \<rparr>))"

text \<open>
  \<^verbatim>\<open>LEvent::AddListener\<close> (both overloads differ only in the overload of
  \<^verbatim>\<open>MakeDelegate\<close> they call). \<open>addr\<close> is the address of the delegate that
  \<^verbatim>\<open>std::make_shared\<close> allocates. The result is the returned pointer (\<open>None\<close> for
  \<^verbatim>\<open>nullptr\<close>) and the event after the call.
\<close>

definition AddListener ::
  "('f, 'd, 'a, 'r, 'w) DelegateFactory \<Rightarrow> 'd LEvent \<Rightarrow> nat \<Rightarrow> 'f \<Rightarrow> int \<Rightarrow> bool
     \<Rightarrow> 'd shared_ptr option \<times> 'd LEvent" where
  "AddListener F e addr FuncPtr InPriority AllowDuplicates =
     (if bIsBroadcasting e then (None, e)
      else
        let DelegatePtr = \<lparr> Addr = addr, Pointee = MakeDelegate F FuncPtr InPriority \<rparr>;
            (Success, e') = InsertDelegate F e DelegatePtr AllowDuplicates
        in (if Success then Some DelegatePtr else None, e'))"

text \<open>
  \<^verbatim>\<open>EError LEvent::RemoveListener(std::shared_ptr<DelegateType>)\<close>: erases the first
  delegate at the same address.
\<close>

definition RemoveListener :: "'d LEvent \<Rightarrow> 'd shared_ptr option \<Rightarrow> EError \<times> 'd LEvent" where
  "RemoveListener e DelegatePtr =
     (if bIsBroadcasting e then (ModifyingCallbackListDuringBroadcast, e)
      else
        let FoundIt = find_if (\<lambda>Data. ptr_eq Data DelegatePtr) (Delegates e)
        in (OK, if FoundIt \<noteq> length (Delegates e)
                then e\<lparr> Delegates := vector_erase FoundIt (Delegates e) \<rparr> else e))"

text \<open>
  What a run of \<^verbatim>\<open>Trigger\<close> does that can be seen from outside, in the order it happens:
  the writes to the broadcasting flag and the calls of delegates (by address).
\<close>

datatype obs = SetBroadcasting bool | Invoked nat

text \<open>
  The result of a call that runs listeners: the returned value, the event after the call,
  the state outside the event and the observations of the run.
\<close>

record ('x, 'd, 'w) run =
  Ret :: 'x
  Ev :: "'d LEvent"
  World :: 'w
  Trace :: "obs list"

text \<open>
  A call of a delegate is a function of the arguments and of the state outside the event:
  a listener that calls \<^verbatim>\<open>AddListener\<close> or \<^verbatim>\<open>RemoveListener\<close> of the event that is
  running it finds the flag set and changes nothing; a listener that calls
  \<^verbatim>\<open>Trigger\<close> of that event is not covered.

  The two range-for loops of \<^verbatim>\<open>Trigger\<close>: the one of the \<^verbatim>\<open>void\<close> branch drops what the
  delegate returns, the other one does \<^verbatim>\<open>Results.push_back\<close>. The loop of
  \<^verbatim>\<open>TriggerComplex\<close> calls \<^verbatim>\<open>Adder(Results, (*D)(InArgs...))\<close>; with
  \<open>Adder = (\<lambda>Results r. Results @ [r])\<close> it is the loop of \<^verbatim>\<open>Trigger\<close>.
\<close>

fun loop_void ::
  "('f, 'd, 'a, 'r, 'w) DelegateFactory \<Rightarrow> 'd shared_ptr list \<Rightarrow> 'a \<Rightarrow> 'w \<times> obs list
     \<Rightarrow> 'w \<times> obs list" where
  "loop_void F [] InArgs st = st"
| "loop_void F (D # Ds) InArgs (w, tr) =
     (let (r, w') = CallOp F (Pointee D) InArgs w
      in loop_void F Ds InArgs (w', tr @ [Invoked (Addr D)]))"

fun loop_adder ::
  "('f, 'd, 'a, 'r, 'w) DelegateFactory \<Rightarrow> ('c \<Rightarrow> 'r \<Rightarrow> 'c) \<Rightarrow> 'd shared_ptr list \<Rightarrow> 'a
     \<Rightarrow> 'c \<times> 'w \<times> obs list \<Rightarrow> 'c \<times> 'w \<times> obs list" where
  "loop_adder F Adder [] InArgs st = st"
| "loop_adder F Adder (D # Ds) InArgs (Results, w, tr) =
     (let (r, w') = CallOp F (Pointee D) InArgs w
      in loop_adder F Adder Ds InArgs (Adder Results r, w', tr @ [Invoked (Addr D)]))"

definition push_back :: "'r list \<Rightarrow> 'r \<Rightarrow> 'r list" where
  "push_back Results r = Results @ [r]"

text \<open>
  \<^verbatim>\<open>LEvent::Trigger\<close>. The branch of \<^verbatim>\<open>if constexpr\<close> is chosen by the return type of
  the instantiation: \<open>Trigger_void\<close> and \<open>Trigger_value\<close> are the two branches,
  \<open>Trigger\<close> is the member function, which returns nothing (\<open>None\<close>) for \<^verbatim>\<open>void\<close>.
\<close>

definition Trigger_void ::
  "('f, 'd, 'a, 'r, 'w) DelegateFactory \<Rightarrow> 'd LEvent \<Rightarrow> 'a \<Rightarrow> 'w \<Rightarrow> (unit, 'd, 'w) run" where
  "Trigger_void F e InArgs w =
     (let e1 = e\<lparr> bIsBroadcasting := True \<rparr>;
          (w', tr) = loop_void F (Delegates e1) InArgs (w, [SetBroadcasting True]);
          e2 = e1\<lparr> bIsBroadcasting := False \<rparr>
      in \<lparr> Ret = (), Ev = e2, World = w', Trace = tr @ [SetBroadcasting False] \<rparr>)"

definition Trigger_value ::
  "('f, 'd, 'a, 'r, 'w) DelegateFactory \<Rightarrow> 'd LEvent \<Rightarrow> 'a \<Rightarrow> 'w \<Rightarrow> ('r list, 'd, 'w) run" where
  "Trigger_value F e InArgs w =
     (let e1 = e\<lparr> bIsBroadcasting := True \<rparr>;
          (Results, w', tr) =
             loop_adder F push_back (Delegates e1) InArgs ([], w, [SetBroadcasting True]);
          e2 = e1\<lparr> bIsBroadcasting := False \<rparr>
      in \<lparr> Ret = Results, Ev = e2, World = w', Trace = tr @ [SetBroadcasting False] \<rparr>)"

definition Trigger ::
  "('f, 'd, 'a, 'r, 'w) DelegateFactory \<Rightarrow> 'd LEvent \<Rightarrow> 'a \<Rightarrow> 'w
     \<Rightarrow> ('r list option, 'd, 'w) run" where
  "Trigger F e InArgs w =
     (if is_void (Sig e)
      then let t = Trigger_void F e InArgs w
           in \<lparr> Ret = None, Ev = Ev t, World = World t, Trace = Trace t \<rparr>
      else let t = Trigger_value F e InArgs w
           in \<lparr> Ret = Some (Ret t), Ev = Ev t, World = World t, Trace = Trace t \<rparr>)"

text \<open>
  \<^verbatim>\<open>LEvent::TriggerComplex<ContainerType, AdderFunc>\<close>: \<open>Results0\<close> is the default-constructed
  container.
\<close>

definition TriggerComplex_value ::
  "('f, 'd, 'a, 'r, 'w) DelegateFactory \<Rightarrow> 'd LEvent \<Rightarrow> 'c \<Rightarrow> ('c \<Rightarrow> 'r \<Rightarrow> 'c) \<Rightarrow> 'a \<Rightarrow> 'w
     \<Rightarrow> ('c, 'd, 'w) run" where
  "TriggerComplex_value F e Results0 Adder InArgs w =
     (let e1 = e\<lparr> bIsBroadcasting := True \<rparr>;
          (Results, w', tr) =
             loop_adder F Adder (Delegates e1) InArgs (Results0, w, [SetBroadcasting True]);
          e2 = e1\<lparr> bIsBroadcasting := False \<rparr>
      in \<lparr> Ret = Results, Ev = e2, World = w', Trace = tr @ [SetBroadcasting False] \<rparr>)"

definition TriggerComplex ::
  "('f, 'd, 'a, 'r, 'w) DelegateFactory \<Rightarrow> 'd LEvent \<Rightarrow> 'c \<Rightarrow> ('c \<Rightarrow> 'r \<Rightarrow> 'c) \<Rightarrow> 'a \<Rightarrow> 'w
     \<Rightarrow> ('c option, 'd, 'w) run" where
  "TriggerComplex F e Results0 Adder InArgs w =
     (if is_void (Sig e)
      then let t = Trigger_void F e InArgs w
           in \<lparr> Ret = None, Ev = Ev t, World = World t, Trace = Trace t \<rparr>
      else let t = TriggerComplex_value F e Results0 Adder InArgs w
           in \<lparr> Ret = Some (Ret t), Ev = Ev t, World = World t, Trace = Trace t \<rparr>)"

section \<open>Connection\<close>

text \<open>
  The member \<^verbatim>\<open>std::any Delegate\<close>: empty, or a shared pointer (possibly null) to the
  \<^verbatim>\<open>Delegate\<close> type of the event class with the given signature.
  \<^verbatim>\<open>std::any_cast\<close> to another type throws \<^verbatim>\<open>std::bad_any_cast\<close>.
\<close>

datatype 'd any_delegate = AnyEmpty | AnyPtr Signature "'d shared_ptr option"

datatype exn = bad_any_cast

text \<open>
  \<^verbatim>\<open>class Connection\<close>. \<open>Event\<close> is the shared pointer to the event: the address of the
  event in the store, \<open>None\<close> when null.
\<close>

record 'd Connection =
  Event :: "nat option"
  Delegate :: "'d any_delegate"
  bActive :: bool
  Error :: EError

text \<open>The two constructors; the members without an initialiser keep their defaults.\<close>

definition Connection_error :: "EError \<Rightarrow> 'd Connection" where
  "Connection_error InError =
     \<lparr> Event = None, Delegate = AnyEmpty, bActive = True, Error = InError \<rparr>"

definition Connection_new :: "nat option \<Rightarrow> Signature \<Rightarrow> 'd shared_ptr option \<Rightarrow> 'd Connection" where
  "Connection_new InEvent T InDelegate =
     \<lparr> Event = InEvent, Delegate = AnyPtr T InDelegate, bActive = True, Error = OK \<rparr>"

text \<open>
  Move construction: the result is the new connection, which is another object than the
  source, and the moved-from one. A moved-from \<^verbatim>\<open>shared_ptr\<close> is null; a moved-from
  \<^verbatim>\<open>std::any\<close> is in a valid but unspecified state, the parameter \<open>residue\<close>.
\<close>

definition Connection_move ::
  "'d any_delegate \<Rightarrow> 'd Connection \<Rightarrow> 'd Connection \<times> 'd Connection" where
  "Connection_move residue Other =
     (\<lparr> Event = Event Other, Delegate = Delegate Other,
        bActive = bActive Other, Error = Error Other \<rparr>,
      Other\<lparr> Event := None, Delegate := residue \<rparr>)"

text \<open>
  Move assignment \<^verbatim>\<open>*this = std::move(Other)\<close>. Target and source may be the same object,
  so the connections that the caller holds are kept in a store, by address, and the four
  assignments of \<^verbatim>\<open>operator=\<close> are made on it in their order. The move assignments of
  \<^verbatim>\<open>shared_ptr\<close> and of \<^verbatim>\<open>std::any\<close> work as if by
  \<^verbatim>\<open>T(std::move(rhs)).swap(*this)\<close>: between two objects the target takes the value and
  the source is left null, respectively in the state \<open>residue\<close>; on one object the value
  stays where it is.
\<close>

type_synonym 'd connections = "nat \<Rightarrow> 'd Connection"

definition Connection_move_assign ::
  "'d any_delegate \<Rightarrow> nat \<Rightarrow> nat \<Rightarrow> 'd connections \<Rightarrow> 'd connections" where
  "Connection_move_assign residue this Other cs =
     (let cs1 = (if this = Other then cs
                 else cs(this := (cs this)\<lparr> Event := Event (cs Other) \<rparr>,
                         Other := (cs Other)\<lparr> Event := None \<rparr>));
          cs2 = (if this = Other then cs1
                 else cs1(this := (cs1 this)\<lparr> Delegate := Delegate (cs1 Other) \<rparr>,
                          Other := (cs1 Other)\<lparr> Delegate := residue \<rparr>));
          cs3 = cs2(this := (cs2 this)\<lparr> bActive := bActive (cs2 Other) \<rparr>);
          cs4 = cs3(this := (cs3 this)\<lparr> Error := Error (cs3 Other) \<rparr>)
      in cs4)"

definition operator_bool :: "'d Connection \<Rightarrow> bool" where
  "operator_bool c = (Event c \<noteq> None \<and> bActive c)"

definition IsActive :: "'d Connection \<Rightarrow> bool" where
  "IsActive c = (bActive c \<and> Error c = OK)"

definition GetError :: "'d Connection \<Rightarrow> EError" where
  "GetError c = Error c"

text \<open>
  \<^verbatim>\<open>void LEvent::RemoveListener(Connection&)\<close>, the override of the interface
  \<^verbatim>\<open>ILEvent\<close>.
\<close>

definition RemoveListener_Connection :: "'d LEvent \<Rightarrow> 'd Connection \<Rightarrow> exn + 'd LEvent" where
  "RemoveListener_Connection e Conn =
     (if bIsBroadcasting e then Inr e
      else case Delegate Conn of
        AnyEmpty \<Rightarrow> Inl bad_any_cast
      | AnyPtr T DelegatePtr \<Rightarrow>
          if T \<noteq> Sig e then Inl bad_any_cast
          else
            let FoundIt = find_if (\<lambda>Data. ptr_eq Data DelegatePtr) (Delegates e)
            in Inr (if FoundIt \<noteq> length (Delegates e)
                    then e\<lparr> Delegates := vector_erase FoundIt (Delegates e) \<rparr> else e))"

text \<open>
  The events live in a store and are shared by the manager's slots and the connections:
  the store is the list of all events allocated so far, an address is an index in it.
  \<^verbatim>\<open>Connection::Disconnect\<close> changes the connection and, through the event pointer,
  the event in the store.
\<close>

type_synonym 'd heap = "'d LEvent list"

definition Disconnect :: "'d Connection \<Rightarrow> 'd heap \<Rightarrow> exn + ('d Connection \<times> 'd heap)" where
  "Disconnect c h =
     (case Event c of
        Some p \<Rightarrow>
          if bActive c
          then (case RemoveListener_Connection (h ! p) c of
                  Inl x \<Rightarrow> Inl x
                | Inr e' \<Rightarrow> Inr (c\<lparr> bActive := False \<rparr>, h[p := e']))
          else Inr (c\<lparr> bActive := False \<rparr>, h)
      | None \<Rightarrow> Inr (c\<lparr> bActive := False \<rparr>, h))"

section \<open>Manager\<close>

text \<open>
  \<^verbatim>\<open>class Manager\<close> (the header LEventManager.h, which follows the introduction in
  README.md): the array \<^verbatim>\<open>std::any Events[Count]\<close> and the flag.
  A slot without a value is \<open>None\<close>; a slot with a value holds a
  \<^verbatim>\<open>shared_ptr<LEvent<DelegateFactory, ReturnType, Args...>>\<close>, that is the signature
  (what \<^verbatim>\<open>Slot.type()\<close> tells) and the address of the event in the store. An identifier
  is the index \<^verbatim>\<open>static_cast<int>(ID)\<close>.
\<close>

record Manager =
  Events :: "(Signature \<times> nat) option list"
  bEventsBlocked :: bool

definition Manager_new :: "nat \<Rightarrow> Manager" where
  "Manager_new Count = \<lparr> Events = replicate Count None, bEventsBlocked = False \<rparr>"

definition BlockEvents :: "bool \<Rightarrow> Manager \<Rightarrow> Manager" where
  "BlockEvents b m = m\<lparr> bEventsBlocked := b \<rparr>"

text \<open>
  \<^verbatim>\<open>Detail_DeclareEvent<ReturnType(Args...)>::DeclareEvent<ID>(CanReplace)\<close>.
  \<^verbatim>\<open>std::make_shared<EventType>()\<close> allocates the new event at the end of the store.
\<close>

definition DeclareEvent ::
  "nat \<Rightarrow> Signature \<Rightarrow> bool \<Rightarrow> Manager \<Rightarrow> 'd heap \<Rightarrow> bool \<times> Manager \<times> 'd heap" where
  "DeclareEvent ID sig CanReplace m h =
     (let Slot = Events m ! ID
      in if CanReplace \<or> Slot = None
         then (True, m\<lparr> Events := (Events m)[ID := Some (sig, length h)] \<rparr>,
               h @ [LEvent_new sig])
         else (False, m, h))"

text \<open>
  The test \<^verbatim>\<open>!Slot.has_value() || Slot.type() != typeid(SlotType)\<close> of
  \<^verbatim>\<open>AddListener\<close>, \<^verbatim>\<open>TriggerEvent\<close> and \<^verbatim>\<open>TriggerEventComplex\<close>.
\<close>

definition slot_mismatch :: "(Signature \<times> nat) option \<Rightarrow> Signature \<Rightarrow> bool" where
  "slot_mismatch Slot sig = (case Slot of None \<Rightarrow> True | Some (T, p) \<Rightarrow> T \<noteq> sig)"

text \<open>
  The private \<^verbatim>\<open>Manager::AddListener<ID, EventType>\<close>, to which the four overloads of
  \<^verbatim>\<open>AddEventListener\<close> forward with the signature of the callee.
\<close>

definition Manager_AddListener ::
  "('f, 'd, 'a, 'r, 'w) DelegateFactory \<Rightarrow> nat \<Rightarrow> Signature \<Rightarrow> nat \<Rightarrow> 'f \<Rightarrow> int \<Rightarrow> bool
     \<Rightarrow> Manager \<Rightarrow> 'd heap \<Rightarrow> 'd Connection \<times> 'd heap" where
  "Manager_AddListener F ID sig addr FuncPtr InPriority AllowDuplicates m h =
     (let Slot = Events m ! ID
      in if slot_mismatch Slot sig then (Connection_error FailedToMatchEventType, h)
         else
           let CastedSlot = snd (the Slot)
           in if IsBroadcasting (h ! CastedSlot)
              then (Connection_error ModifyingCallbackListDuringBroadcast, h)
              else
                let (AddedDelegate, e') =
                      AddListener F (h ! CastedSlot) addr FuncPtr InPriority AllowDuplicates
                in case AddedDelegate of
                     None \<Rightarrow> (Connection_error CallbackAlreadyAdded, h[CastedSlot := e'])
                   | Some d \<Rightarrow>
                       (Connection_new (Some CastedSlot) sig (Some d), h[CastedSlot := e']))"

text \<open>
  The result of a manager call that may run listeners: the returned value, the store, the
  state outside and the observations.
\<close>

record ('x, 'd, 'w) mgr_run =
  mRet :: 'x
  mHeap :: "'d heap"
  mWorld :: 'w
  mTrace :: "obs list"

text \<open>
  \<^verbatim>\<open>Manager::TriggerEvent<ID, ReturnType, Args...>\<close>. For \<^verbatim>\<open>void\<close> only the error is
  returned (no results: \<open>None\<close>); otherwise \<^verbatim>\<open>MaybeResult\<close>, whose \<^verbatim>\<open>Results\<close> are
  value-initialised (the empty vector) when only \<^verbatim>\<open>.Error\<close> is given.
\<close>

definition TriggerEvent ::
  "('f, 'd, 'a, 'r, 'w) DelegateFactory \<Rightarrow> nat \<Rightarrow> Signature \<Rightarrow> 'a \<Rightarrow> Manager \<Rightarrow> 'd heap \<Rightarrow> 'w
     \<Rightarrow> ('r list option \<times> EError, 'd, 'w) mgr_run" where
  "TriggerEvent F ID sig InArgs m h w =
     (let Slot = Events m ! ID
      in if is_void sig
         then
           if bEventsBlocked m
           then \<lparr> mRet = (None, EventsBlocked), mHeap = h, mWorld = w, mTrace = [] \<rparr>
           else if slot_mismatch Slot sig
           then \<lparr> mRet = (None, FailedToMatchEventType), mHeap = h, mWorld = w, mTrace = [] \<rparr>
           else
             let CastedSlot = snd (the Slot);
                 t = Trigger_void F (h ! CastedSlot) InArgs w
             in \<lparr> mRet = (None, OK), mHeap = h[CastedSlot := Ev t],
                  mWorld = World t, mTrace = Trace t \<rparr>
         else
           if bEventsBlocked m
           then \<lparr> mRet = (Some [], EventsBlocked), mHeap = h, mWorld = w, mTrace = [] \<rparr>
           else if slot_mismatch Slot sig
           then \<lparr> mRet = (Some [], FailedToMatchEventType), mHeap = h, mWorld = w,
                  mTrace = [] \<rparr>
           else
             let CastedSlot = snd (the Slot);
                 t = Trigger_value F (h ! CastedSlot) InArgs w
             in \<lparr> mRet = (Some (Ret t), OK), mHeap = h[CastedSlot := Ev t],
                  mWorld = World t, mTrace = Trace t \<rparr>)"

text \<open>
  \<^verbatim>\<open>Manager::TriggerEventComplex<ID, ContainerType, AdderFunc, Args...>\<close>. The return type
  of the event looked up is the element type of the container, which is not \<^verbatim>\<open>void\<close>.
\<close>

definition TriggerEventComplex ::
  "('f, 'd, 'a, 'r, 'w) DelegateFactory \<Rightarrow> nat \<Rightarrow> Signature \<Rightarrow> 'c \<Rightarrow> ('c \<Rightarrow> 'r \<Rightarrow> 'c) \<Rightarrow> 'a
     \<Rightarrow> Manager \<Rightarrow> 'd heap \<Rightarrow> 'w \<Rightarrow> ('c \<times> EError, 'd, 'w) mgr_run" where
  "TriggerEventComplex F ID sig Results0 Adder InArgs m h w =
     (let Slot = Events m ! ID
      in if bEventsBlocked m
         then \<lparr> mRet = (Results0, EventsBlocked), mHeap = h, mWorld = w, mTrace = [] \<rparr>
         else if slot_mismatch Slot sig
         then \<lparr> mRet = (Results0, FailedToMatchEventType), mHeap = h, mWorld = w,
                mTrace = [] \<rparr>
         else
           let CastedSlot = snd (the Slot);
               t = TriggerComplex_value F (h ! CastedSlot) Results0 Adder InArgs w
           in \<lparr> mRet = (Ret t, OK), mHeap = h[CastedSlot := Ev t],
                mWorld = World t, mTrace = Trace t \<rparr>)"

definition DestroyAll :: "Manager \<Rightarrow> Manager" where
  "DestroyAll m = m\<lparr> Events := map (\<lambda>Slot. None) (Events m) \<rparr>"

section \<open>Sequences of calls\<close>

text \<open>
  A caller's sequence of \<^verbatim>\<open>AddListener\<close> calls on one event, each with the address of
  the delegate it allocates, what the listener is made from, the priority and
  \<^verbatim>\<open>AllowDuplicates\<close>: the pointers returned, in call order, and the event at the end.
  \<open>added\<close> keeps the pointers that are not null.
\<close>

fun AddListener_calls ::
  "('f, 'd, 'a, 'r, 'w) DelegateFactory \<Rightarrow> 'd LEvent \<Rightarrow> (nat \<times> 'f \<times> int \<times> bool) list
     \<Rightarrow> 'd shared_ptr option list \<times> 'd LEvent" where
  "AddListener_calls F e [] = ([], e)"
| "AddListener_calls F e ((addr, FuncPtr, InPriority, AllowDuplicates) # calls) =
     (let (r, e1) = AddListener F e addr FuncPtr InPriority AllowDuplicates;
          (rs, e2) = AddListener_calls F e1 calls
      in (r # rs, e2))"

fun added :: "'x option list \<Rightarrow> 'x list" where
  "added [] = []"
| "added (None # rs) = added rs"
| "added (Some d # rs) = d # added rs"

text \<open>
  A caller's sequence of calls of the manager's public member functions and of
  \<^verbatim>\<open>Disconnect\<close> on connections it holds. Each call reports the error code a trigger
  returns (\<open>None\<close> for the other calls) and its observations; the state is the manager,
  the store and the state outside.
\<close>

datatype ('f, 'd, 'a, 'r, 'c) MgrCall =
    CallBlockEvents bool
  | CallDeclareEvent nat Signature bool
  | CallAddEventListener nat Signature nat 'f int bool
  | CallTriggerEvent nat Signature 'a
  | CallTriggerEventComplex nat Signature 'c "'c \<Rightarrow> 'r \<Rightarrow> 'c" 'a
  | CallDestroyAll
  | CallDisconnect "'d Connection"

fun is_trigger :: "('f, 'd, 'a, 'r, 'c) MgrCall \<Rightarrow> bool" where
  "is_trigger (CallTriggerEvent ID sig InArgs) = True"
| "is_trigger (CallTriggerEventComplex ID sig Results0 Adder InArgs) = True"
| "is_trigger call = False"

fun exec_call ::
  "('f, 'd, 'a, 'r, 'w) DelegateFactory \<Rightarrow> ('f, 'd, 'a, 'r, 'c) MgrCall
     \<Rightarrow> Manager \<times> 'd heap \<times> 'w \<Rightarrow> (EError option \<times> obs list) \<times> (Manager \<times> 'd heap \<times> 'w)" where
  "exec_call F (CallBlockEvents b) (m, h, w) = ((None, []), (BlockEvents b m, h, w))"
| "exec_call F (CallDeclareEvent ID sig CanReplace) (m, h, w) =
     (let (ok, m', h') = DeclareEvent ID sig CanReplace m h in ((None, []), (m', h', w)))"
| "exec_call F (CallAddEventListener ID sig addr FuncPtr InPriority AllowDuplicates) (m, h, w) =
     (let (Conn, h') = Manager_AddListener F ID sig addr FuncPtr InPriority AllowDuplicates m h
      in ((None, []), (m, h', w)))"
| "exec_call F (CallTriggerEvent ID sig InArgs) (m, h, w) =
     (let t = TriggerEvent F ID sig InArgs m h w
      in ((Some (snd (mRet t)), mTrace t), (m, mHeap t, mWorld t)))"
| "exec_call F (CallTriggerEventComplex ID sig Results0 Adder InArgs) (m, h, w) =
     (let t = TriggerEventComplex F ID sig Results0 Adder InArgs m h w
      in ((Some (snd (mRet t)), mTrace t), (m, mHeap t, mWorld t)))"
| "exec_call F CallDestroyAll (m, h, w) = ((None, []), (DestroyAll m, h, w))"
| "exec_call F (CallDisconnect Conn) (m, h, w) =
     (case Disconnect Conn h of
        Inl x \<Rightarrow> ((None, []), (m, h, w))
      | Inr (Conn', h') \<Rightarrow> ((None, []), (m, h', w)))"

fun exec_calls ::
  "('f, 'd, 'a, 'r, 'w) DelegateFactory \<Rightarrow> ('f, 'd, 'a, 'r, 'c) MgrCall list
     \<Rightarrow> Manager \<times> 'd heap \<times> 'w
     \<Rightarrow> (EError option \<times> obs list) list \<times> (Manager \<times> 'd heap \<times> 'w)" where
  "exec_calls F [] st = ([], st)"
| "exec_calls F (call # calls) st =
     (let (r, st1) = exec_call F call st;
          (rs, st2) = exec_calls F calls st1
      in (r # rs, st2))"

text \<open>
  A connection is well formed in a store when its event pointer, if not null, points into
  the store and its \<^verbatim>\<open>std::any\<close> holds a pointer to the delegate type of that event.
\<close>

definition Connection_wf :: "'d Connection \<Rightarrow> 'd heap \<Rightarrow> bool" where
  "Connection_wf c h =
     (case Event c of
        None \<Rightarrow> True
      | Some p \<Rightarrow> p < length h \<and>
          (case Delegate c of AnyEmpty \<Rightarrow> False | AnyPtr T DelegatePtr \<Rightarrow> T = Sig (h ! p)))"

text \<open>
  The slots that hold a value point into the store, to an event of the slot's signature.
\<close>

definition Manager_wf :: "Manager \<Rightarrow> 'd heap \<Rightarrow> bool" where
  "Manager_wf m h =
     list_all (\<lambda>Slot. case Slot of None \<Rightarrow> True
                      | Some (T, p) \<Rightarrow> p < length h \<and> Sig (h ! p) = T) (Events m)"

section \<open>The listeners of EventShowcase.cpp\<close>

text \<open>
  The event \<^verbatim>\<open>LEvent<SimpleDelegateFactory, EListenerType, std::string_view>\<close> of
  \<^verbatim>\<open>SingleEventTest\<close> and its three listeners. A listener prints a line and returns its
  kind; the state outside the event is the list of lines printed.
\<close>

datatype EListenerType = Free | Member | Callable

definition StringSig :: Signature where
  "StringSig = \<lparr> ReturnType = ''EListenerType'', Args = [''std::string_view''] \<rparr>"

definition FreeListener :: "string \<Rightarrow> string list \<Rightarrow> EListenerType \<times> string list" where
  "FreeListener Str out = (Free, out @ [''[Free] '' @ Str])"

definition MemberListener :: "string \<Rightarrow> string list \<Rightarrow> EListenerType \<times> string list" where
  "MemberListener Str out = (Member, out @ [''[Member] '' @ Str])"

definition LambdaListener :: "string \<Rightarrow> string list \<Rightarrow> EListenerType \<times> string list" where
  "LambdaListener Str out = (Callable, out @ [''[Lambda] '' @ Str])"

type_synonym ShowcaseDelegate = "(string, EListenerType, string list) Delegate"

definition ShowcaseFactory ::
  "(string \<Rightarrow> string list \<Rightarrow> EListenerType \<times> string list, ShowcaseDelegate,
    string, EListenerType, string list) DelegateFactory" where
  "ShowcaseFactory = SimpleDelegateFactory"

text \<open>
  The three \<^verbatim>\<open>AddListener\<close> calls of \<^verbatim>\<open>SingleEventTest\<close>, with priorities 2, 0 and 1;
  the delegates are allocated at the addresses 1, 2 and 3.
\<close>

definition ShowcaseCalls ::
  "(nat \<times> (string \<Rightarrow> string list \<Rightarrow> EListenerType \<times> string list) \<times> int \<times> bool) list" where
  "ShowcaseCalls =
     [(1, FreeListener, 2, False), (2, MemberListener, 0, False), (3, LambdaListener, 1, False)]"

definition ShowcaseEvent :: "ShowcaseDelegate LEvent" where
  "ShowcaseEvent = snd (AddListener_calls ShowcaseFactory (LEvent_new StringSig) ShowcaseCalls)"

text \<open>
  The manager of \<^verbatim>\<open>EventMgrTest\<close> for the enumeration \<^verbatim>\<open>String, Void, Test, Count\<close>
  after \<^verbatim>\<open>DeclareEvent<EEvents::String, EListenerType(std::string_view)>()\<close>, with the
  event of the showcase in the slot, and a sequence of calls in which no
  \<^verbatim>\<open>BlockEvents(false)\<close> occurs.
\<close>

definition ShowcaseMgr :: Manager where
  "ShowcaseMgr = \<lparr> Events = [Some (StringSig, 0), None, None], bEventsBlocked = False \<rparr>"

definition ShowcaseHeap :: "ShowcaseDelegate heap" where
  "ShowcaseHeap = [ShowcaseEvent]"

definition ShowcaseMgrCalls ::
  "(string \<Rightarrow> string list \<Rightarrow> EListenerType \<times> string list, ShowcaseDelegate, string,
    EListenerType, EListenerType set) MgrCall list" where
  "ShowcaseMgrCalls =
     [CallTriggerEvent 0 StringSig ''Error'',
      CallBlockEvents True,
      CallTriggerEventComplex 0 StringSig {} (\<lambda>S V. insert V S) ''Managed Event #1'']"

section \<open>Specification of a broadcast\<close>

text \<open>
  What the specification asks of a broadcast: every delegate of the sequence is called once,
  from the first to the last, each in the state the one before has left, and what they
  return is listed in that order. The loops of \<open>Trigger\<close> are compared with it.
\<close>

fun call_each ::
  "('f, 'd, 'a, 'r, 'w) DelegateFactory \<Rightarrow> 'd shared_ptr list \<Rightarrow> 'a \<Rightarrow> 'w \<Rightarrow> 'r list \<times> 'w" where
  "call_each F [] InArgs w = ([], w)"
| "call_each F (D # Ds) InArgs w =
     (let (r, w1) = CallOp F (Pointee D) InArgs w;
          (rs, w2) = call_each F Ds InArgs w1
      in (r # rs, w2))"

section \<open>Facts about the vector operations\<close>

lemma find_if_le_length: "find_if P xs \<le> length xs"
  by (induction xs) auto

lemma find_if_eq_length: "find_if P xs = length xs \<longleftrightarrow> (\<forall>x \<in> set xs. \<not> P x)"
proof (induction xs)
  case Nil
  show ?case by simp
next
  case (Cons x xs)
  have "find_if P xs \<le> length xs" by (rule find_if_le_length)
  with Cons show ?case by auto
qed

lemma take_find_if: "take (find_if P xs) xs = takeWhile (\<lambda>x. \<not> P x) xs"
  by (induction xs) auto

lemma drop_find_if: "drop (find_if P xs) xs = dropWhile (\<lambda>x. \<not> P x) xs"
  by (induction xs) auto

lemma vector_insert_find_if:
  "vector_insert (find_if P xs) x xs
     = takeWhile (\<lambda>y. \<not> P y) xs @ x # dropWhile (\<lambda>y. \<not> P y) xs"
  by (simp add: vector_insert_def take_find_if drop_find_if)

text \<open>
  Inserting before the first element of lower key keeps a list with non-increasing keys
  in that order, and puts the new element behind the elements of its own key.
\<close>

lemma sorted_insert_before_lower:
  fixes key :: "'x \<Rightarrow> int"
  assumes "sorted_wrt (\<lambda>x y. key y \<le> key x) xs"
  shows "sorted_wrt (\<lambda>x y. key y \<le> key x)
           (takeWhile (\<lambda>y. \<not> key y < key d) xs @ d # dropWhile (\<lambda>y. \<not> key y < key d) xs)"
  using assms
proof (induction xs)
  case Nil
  show ?case by simp
next
  case (Cons x xs)
  show ?case
  proof (cases "key x < key d")
    case True
    with Cons.prems show ?thesis by auto
  next
    case False
    have "\<forall>y \<in> set (takeWhile (\<lambda>y. \<not> key y < key d) xs
                     @ d # dropWhile (\<lambda>y. \<not> key y < key d) xs). key y \<le> key x"
    proof
      fix y
      assume "y \<in> set (takeWhile (\<lambda>y. \<not> key y < key d) xs
                        @ d # dropWhile (\<lambda>y. \<not> key y < key d) xs)"
      then have "y = d \<or> y \<in> set xs"
        by (auto dest: set_takeWhileD set_dropWhileD)
      with False Cons.prems show "key y \<le> key x" by auto
    qed
    with False Cons show ?thesis by simp
  qed
qed

lemma filter_insert_before_lower:
  fixes key :: "'x \<Rightarrow> int"
  assumes "sorted_wrt (\<lambda>x y. key y \<le> key x) xs"
  shows "filter (\<lambda>y. key y = k)
           (takeWhile (\<lambda>y. \<not> key y < key d) xs @ d # dropWhile (\<lambda>y. \<not> key y < key d) xs)
         = filter (\<lambda>y. key y = k) xs @ (if key d = k then [d] else [])"
  using assms
proof (induction xs)
  case Nil
  show ?case by simp
next
  case (Cons x xs)
  show ?case
  proof (cases "key x < key d")
    case True
    with Cons.prems have "\<forall>y \<in> set (x # xs). key y < key d" by auto
    then have "key d = k \<Longrightarrow> filter (\<lambda>y. key y = k) (x # xs) = []"
      by (auto simp: filter_empty_conv)
    with True show ?thesis by auto
  next
    case False
    with Cons show ?thesis by simp
  qed
qed

section \<open>Facts about AddListener and Trigger\<close>

lemma AddListener_result:
  "AddListener F e addr FuncPtr p dup = (r, e') \<Longrightarrow>
     (r = None \<and> e' = e) \<or>
     (r = Some \<lparr> Addr = addr, Pointee = MakeDelegate F FuncPtr p \<rparr> \<and> \<not> bIsBroadcasting e \<and>
      e' = e\<lparr> Delegates :=
              takeWhile (\<lambda>y. \<not> PriorityOf F (Pointee y)
                                 < PriorityOf F (MakeDelegate F FuncPtr p)) (Delegates e)
              @ \<lparr> Addr = addr, Pointee = MakeDelegate F FuncPtr p \<rparr>
              # dropWhile (\<lambda>y. \<not> PriorityOf F (Pointee y)
                                   < PriorityOf F (MakeDelegate F FuncPtr p)) (Delegates e) \<rparr>)"
  by (auto simp: AddListener_def InsertDelegate_def Let_def vector_insert_find_if
           split: if_splits)

lemma AddListener_calls_order:
  assumes "sorted_wrt (\<lambda>x y. PriorityOf F (Pointee y) \<le> PriorityOf F (Pointee x)) (Delegates e)"
  shows "sorted_wrt (\<lambda>x y. PriorityOf F (Pointee y) \<le> PriorityOf F (Pointee x))
           (Delegates (snd (AddListener_calls F e calls))) \<and>
         (\<forall>k. filter (\<lambda>D. PriorityOf F (Pointee D) = k)
                 (Delegates (snd (AddListener_calls F e calls)))
              = filter (\<lambda>D. PriorityOf F (Pointee D) = k) (Delegates e)
                @ filter (\<lambda>D. PriorityOf F (Pointee D) = k)
                    (added (fst (AddListener_calls F e calls))))"
  using assms
proof (induction calls arbitrary: e)
  case Nil
  show ?case using Nil by simp
next
  case (Cons call calls)
  obtain addr FuncPtr p dup where call: "call = (addr, FuncPtr, p, dup)"
    by (cases call) auto
  obtain r e1 where step: "AddListener F e addr FuncPtr p dup = (r, e1)"
    by (cases "AddListener F e addr FuncPtr p dup") auto
  let ?key = "\<lambda>D. PriorityOf F (Pointee D)"
  let ?d = "\<lparr> Addr = addr, Pointee = MakeDelegate F FuncPtr p \<rparr>"
  from AddListener_result [OF step]
  consider (rejected) "r = None" "e1 = e"
    | (inserted) "r = Some ?d"
        "Delegates e1 = takeWhile (\<lambda>y. \<not> ?key y < ?key ?d) (Delegates e) @ ?d
                         # dropWhile (\<lambda>y. \<not> ?key y < ?key ?d) (Delegates e)"
    by auto
  then show ?case
  proof cases
    case rejected
    from Cons.IH [of e] Cons.prems show ?thesis
      by (auto simp: call step rejected split: prod.splits)
  next
    case inserted
    have s1: "sorted_wrt (\<lambda>x y. ?key y \<le> ?key x) (Delegates e1)"
      unfolding inserted(2) by (rule sorted_insert_before_lower [OF Cons.prems])
    have f1: "filter (\<lambda>D. ?key D = k) (Delegates e1)
                = filter (\<lambda>D. ?key D = k) (Delegates e) @ (if ?key ?d = k then [?d] else [])"
      for k
      unfolding inserted(2) by (rule filter_insert_before_lower [OF Cons.prems])
    from Cons.IH [OF s1] show ?thesis
      by (auto simp: call step inserted(1) f1 split: prod.splits)
  qed
qed

lemma loop_void_trace:
  "snd (loop_void F Ds InArgs (w, tr)) = tr @ map (\<lambda>D. Invoked (Addr D)) Ds"
  by (induction Ds arbitrary: w tr) (auto split: prod.splits)

lemma loop_adder_trace:
  "snd (snd (loop_adder F Adder Ds InArgs (R, w, tr))) = tr @ map (\<lambda>D. Invoked (Addr D)) Ds"
  by (induction Ds arbitrary: R w tr) (auto split: prod.splits)

lemma Trigger_void_Trace:
  "Trace (Trigger_void F e InArgs w)
     = SetBroadcasting True # map (\<lambda>D. Invoked (Addr D)) (Delegates e) @ [SetBroadcasting False]"
  using loop_void_trace [of F "Delegates e" InArgs w "[SetBroadcasting True]"]
  by (auto simp: Trigger_void_def split: prod.splits)

lemma Trigger_value_Trace:
  "Trace (Trigger_value F e InArgs w)
     = SetBroadcasting True # map (\<lambda>D. Invoked (Addr D)) (Delegates e) @ [SetBroadcasting False]"
  using loop_adder_trace [of F push_back "Delegates e" InArgs "[]" w "[SetBroadcasting True]"]
  by (auto simp: Trigger_value_def split: prod.splits)

lemma TriggerComplex_value_Trace:
  "Trace (TriggerComplex_value F e R0 Adder InArgs w)
     = SetBroadcasting True # map (\<lambda>D. Invoked (Addr D)) (Delegates e) @ [SetBroadcasting False]"
  using loop_adder_trace [of F Adder "Delegates e" InArgs R0 w "[SetBroadcasting True]"]
  by (auto simp: TriggerComplex_value_def split: prod.splits)

lemma Trigger_Trace:
  "Trace (Trigger F e InArgs w)
     = SetBroadcasting True # map (\<lambda>D. Invoked (Addr D)) (Delegates e) @ [SetBroadcasting False]"
  by (simp add: Trigger_def Let_def Trigger_void_Trace Trigger_value_Trace)

lemma loop_void_call_each:
  "loop_void F Ds InArgs (w, tr)
     = (snd (call_each F Ds InArgs w), tr @ map (\<lambda>D. Invoked (Addr D)) Ds)"
  by (induction Ds arbitrary: w tr) (auto split: prod.splits)

lemma loop_adder_call_each:
  "loop_adder F Adder Ds InArgs (R, w, tr)
     = (foldl Adder R (fst (call_each F Ds InArgs w)), snd (call_each F Ds InArgs w),
        tr @ map (\<lambda>D. Invoked (Addr D)) Ds)"
  by (induction Ds arbitrary: R w tr) (auto split: prod.splits)

lemma foldl_push_back: "foldl push_back xs ys = xs @ ys"
  by (induction ys arbitrary: xs) (auto simp: push_back_def)

lemma length_call_each: "length (fst (call_each F Ds InArgs w)) = length Ds"
  by (induction Ds arbitrary: w) (simp_all add: case_prod_beta)

lemma Trigger_void_eq:
  "Trigger_void F e InArgs w =
     \<lparr> Ret = (), Ev = e\<lparr> bIsBroadcasting := False \<rparr>,
       World = snd (call_each F (Delegates e) InArgs w),
       Trace = SetBroadcasting True # map (\<lambda>D. Invoked (Addr D)) (Delegates e)
               @ [SetBroadcasting False] \<rparr>"
  by (simp add: Trigger_void_def loop_void_call_each)

lemma TriggerComplex_value_eq:
  "TriggerComplex_value F e R0 Adder InArgs w =
     \<lparr> Ret = foldl Adder R0 (fst (call_each F (Delegates e) InArgs w)),
       Ev = e\<lparr> bIsBroadcasting := False \<rparr>,
       World = snd (call_each F (Delegates e) InArgs w),
       Trace = SetBroadcasting True # map (\<lambda>D. Invoked (Addr D)) (Delegates e)
               @ [SetBroadcasting False] \<rparr>"
  by (simp add: TriggerComplex_value_def loop_adder_call_each)

lemma Trigger_value_eq:
  "Trigger_value F e InArgs w =
     \<lparr> Ret = fst (call_each F (Delegates e) InArgs w),
       Ev = e\<lparr> bIsBroadcasting := False \<rparr>,
       World = snd (call_each F (Delegates e) InArgs w),
       Trace = SetBroadcasting True # map (\<lambda>D. Invoked (Addr D)) (Delegates e)
               @ [SetBroadcasting False] \<rparr>"
  by (simp add: Trigger_value_def loop_adder_call_each foldl_push_back)

lemma Trigger_eq:
  "Trigger F e InArgs w =
     \<lparr> Ret = (if is_void (Sig e) then None
              else Some (fst (call_each F (Delegates e) InArgs w))),
       Ev = e\<lparr> bIsBroadcasting := False \<rparr>,
       World = snd (call_each F (Delegates e) InArgs w),
       Trace = SetBroadcasting True # map (\<lambda>D. Invoked (Addr D)) (Delegates e)
               @ [SetBroadcasting False] \<rparr>"
  by (simp add: Trigger_def Let_def Trigger_void_eq Trigger_value_eq)

lemma call_each_append:
  "call_each F (xs @ ys) InArgs w =
     (fst (call_each F xs InArgs w) @ fst (call_each F ys InArgs (snd (call_each F xs InArgs w))),
      snd (call_each F ys InArgs (snd (call_each F xs InArgs w))))"
  by (induction xs arbitrary: w) (simp_all add: case_prod_beta)

text \<open>
  A delegate in the middle of the sequence is called in the state that the delegates before
  it have left; what it returns is in the results at its place, and the delegates behind it
  run in the state it leaves.
\<close>

lemma call_each_split:
  "call_each F (xs @ D # ys) InArgs w =
     (fst (call_each F xs InArgs w)
      @ fst (CallOp F (Pointee D) InArgs (snd (call_each F xs InArgs w)))
      # fst (call_each F ys InArgs
               (snd (CallOp F (Pointee D) InArgs (snd (call_each F xs InArgs w))))),
      snd (call_each F ys InArgs
             (snd (CallOp F (Pointee D) InArgs (snd (call_each F xs InArgs w))))))"
  by (simp add: call_each_append case_prod_beta)

lemmas showcase_defs = ShowcaseEvent_def ShowcaseCalls_def ShowcaseFactory_def
  SimpleDelegateFactory_def LEvent_new_def AddListener_def InsertDelegate_def
  vector_insert_def Let_def

lemma ShowcaseEvent_eq:
  "ShowcaseEvent = \<lparr> Sig = StringSig,
      Delegates = [\<lparr> Addr = 1, Pointee = \<lparr> Callee = FreeListener, Priority = 2 \<rparr> \<rparr>,
                   \<lparr> Addr = 3, Pointee = \<lparr> Callee = LambdaListener, Priority = 1 \<rparr> \<rparr>,
                   \<lparr> Addr = 2, Pointee = \<lparr> Callee = MemberListener, Priority = 0 \<rparr> \<rparr>],
      bIsBroadcasting = False \<rparr>"
  by (simp add: showcase_defs)

lemma Showcase_call_each:
  "call_each ShowcaseFactory (Delegates ShowcaseEvent) Str out
     = ([Free, Callable, Member],
        out @ [''[Free] '' @ Str, ''[Lambda] '' @ Str, ''[Member] '' @ Str])"
  by (simp add: ShowcaseEvent_eq ShowcaseFactory_def SimpleDelegateFactory_def FreeListener_def
        LambdaListener_def MemberListener_def)

section \<open>Claims about LEvent\<close>

text \<open>
  C1. Whatever the sequence of \<^verbatim>\<open>AddListener\<close> calls on a new event, the delegates stored
  have non-increasing priorities, and the delegates of each priority are the ones added
  with it, in the order of their calls. Every successful \<^verbatim>\<open>AddListener\<close> puts the new
  delegate behind the stored delegates that come before the first one of strictly lower
  priority. \<^verbatim>\<open>Trigger\<close> sets the flag, calls the stored delegates one after the other in
  the stored order and clears the flag: each delegate is applied to the arguments in the
  state that the delegates stored before it have left, the state after the last one is the
  state after \<^verbatim>\<open>Trigger\<close>, and what the delegates return is returned in the stored
  order. The ordering holds as well for a sequence of calls on any event whose delegates
  have non-increasing priorities.
\<close>

theorem AddListener_keeps_priority_order:
  "sorted_wrt (\<lambda>x y. PriorityOf F (Pointee y) \<le> PriorityOf F (Pointee x))
      (Delegates (snd (AddListener_calls F (LEvent_new sig) calls)))
   \<and> (\<forall>k. filter (\<lambda>D. PriorityOf F (Pointee D) = k)
             (Delegates (snd (AddListener_calls F (LEvent_new sig) calls)))
         = filter (\<lambda>D. PriorityOf F (Pointee D) = k)
             (added (fst (AddListener_calls F (LEvent_new sig) calls))))
   \<and> (\<forall>e addr FuncPtr p dup D e'.
         AddListener F e addr FuncPtr p dup = (Some D, e') \<longrightarrow>
         Delegates e' =
           takeWhile (\<lambda>y. PriorityOf F (Pointee D) \<le> PriorityOf F (Pointee y)) (Delegates e)
           @ D # dropWhile (\<lambda>y. PriorityOf F (Pointee D) \<le> PriorityOf F (Pointee y))
                   (Delegates e))
   \<and> (\<forall>e InArgs w. Trace (Trigger F e InArgs w)
         = SetBroadcasting True # map (\<lambda>D. Invoked (Addr D)) (Delegates e)
           @ [SetBroadcasting False])
   \<and> (\<forall>e InArgs w.
         World (Trigger F e InArgs w) = snd (call_each F (Delegates e) InArgs w)
         \<and> Ret (Trigger F e InArgs w)
             = (if is_void (Sig e) then None
                else Some (fst (call_each F (Delegates e) InArgs w))))
   \<and> (\<forall>xs D ys InArgs w.
         call_each F (xs @ D # ys) InArgs w =
           (fst (call_each F xs InArgs w)
            @ fst (CallOp F (Pointee D) InArgs (snd (call_each F xs InArgs w)))
            # fst (call_each F ys InArgs
                     (snd (CallOp F (Pointee D) InArgs (snd (call_each F xs InArgs w))))),
            snd (call_each F ys InArgs
                   (snd (CallOp F (Pointee D) InArgs (snd (call_each F xs InArgs w)))))))
   \<and> (\<forall>e. sorted_wrt (\<lambda>x y. PriorityOf F (Pointee y) \<le> PriorityOf F (Pointee x))
              (Delegates e) \<longrightarrow>
            sorted_wrt (\<lambda>x y. PriorityOf F (Pointee y) \<le> PriorityOf F (Pointee x))
              (Delegates (snd (AddListener_calls F e calls)))
            \<and> (\<forall>k. filter (\<lambda>D. PriorityOf F (Pointee D) = k)
                      (Delegates (snd (AddListener_calls F e calls)))
                  = filter (\<lambda>D. PriorityOf F (Pointee D) = k) (Delegates e)
                    @ filter (\<lambda>D. PriorityOf F (Pointee D) = k)
                        (added (fst (AddListener_calls F e calls)))))"
proof (intro conjI allI impI)
  have s0: "sorted_wrt (\<lambda>x y. PriorityOf F (Pointee y) \<le> PriorityOf F (Pointee x))
              (Delegates (LEvent_new sig))"
    by (simp add: LEvent_new_def)
  note inv = AddListener_calls_order [OF s0, of calls]
  show "sorted_wrt (\<lambda>x y. PriorityOf F (Pointee y) \<le> PriorityOf F (Pointee x))
      (Delegates (snd (AddListener_calls F (LEvent_new sig) calls)))"
    using inv by blast
  show "filter (\<lambda>D. PriorityOf F (Pointee D) = k)
             (Delegates (snd (AddListener_calls F (LEvent_new sig) calls)))
         = filter (\<lambda>D. PriorityOf F (Pointee D) = k)
             (added (fst (AddListener_calls F (LEvent_new sig) calls)))" for k
    using inv by (simp add: LEvent_new_def)
next
  fix e addr FuncPtr p dup D e'
  assume a: "AddListener F e addr FuncPtr p dup = (Some D, e')"
  from AddListener_result [OF a]
  show "Delegates e' =
           takeWhile (\<lambda>y. PriorityOf F (Pointee D) \<le> PriorityOf F (Pointee y)) (Delegates e)
           @ D # dropWhile (\<lambda>y. PriorityOf F (Pointee D) \<le> PriorityOf F (Pointee y))
                   (Delegates e)"
    by (auto simp: not_less)
next
  fix e InArgs w
  show "Trace (Trigger F e InArgs w)
         = SetBroadcasting True # map (\<lambda>D. Invoked (Addr D)) (Delegates e)
           @ [SetBroadcasting False]"
    by (rule Trigger_Trace)
next
  fix e InArgs w
  show "World (Trigger F e InArgs w) = snd (call_each F (Delegates e) InArgs w)"
    by (simp add: Trigger_eq)
  show "Ret (Trigger F e InArgs w)
             = (if is_void (Sig e) then None
                else Some (fst (call_each F (Delegates e) InArgs w)))"
    by (simp add: Trigger_eq)
next
  fix xs D ys InArgs w
  show "call_each F (xs @ D # ys) InArgs w =
           (fst (call_each F xs InArgs w)
            @ fst (CallOp F (Pointee D) InArgs (snd (call_each F xs InArgs w)))
            # fst (call_each F ys InArgs
                     (snd (CallOp F (Pointee D) InArgs (snd (call_each F xs InArgs w))))),
            snd (call_each F ys InArgs
                   (snd (CallOp F (Pointee D) InArgs (snd (call_each F xs InArgs w))))))"
    by (rule call_each_split)
next
  fix e :: "_ LEvent"
  assume s: "sorted_wrt (\<lambda>x y. PriorityOf F (Pointee y) \<le> PriorityOf F (Pointee x))
               (Delegates e)"
  note inv = AddListener_calls_order [OF s, of calls]
  show "sorted_wrt (\<lambda>x y. PriorityOf F (Pointee y) \<le> PriorityOf F (Pointee x))
              (Delegates (snd (AddListener_calls F e calls)))"
    using inv by blast
  show "filter (\<lambda>D. PriorityOf F (Pointee D) = k)
                      (Delegates (snd (AddListener_calls F e calls)))
                  = filter (\<lambda>D. PriorityOf F (Pointee D) = k) (Delegates e)
                    @ filter (\<lambda>D. PriorityOf F (Pointee D) = k)
                        (added (fst (AddListener_calls F e calls)))" for k
    using inv by blast
qed

text \<open>
  The third call of \<^verbatim>\<open>SingleEventTest\<close>: the lambda of priority 1 goes between the
  listeners of priorities 2 and 0. The broadcast that follows runs the three listeners by
  priority: they return their kinds and print their lines in that order.
\<close>

theorem AddListener_keeps_priority_order_witness:
  "AddListener ShowcaseFactory
      \<lparr> Sig = StringSig,
        Delegates = [\<lparr> Addr = 1, Pointee = \<lparr> Callee = FreeListener, Priority = 2 \<rparr> \<rparr>,
                     \<lparr> Addr = 2, Pointee = \<lparr> Callee = MemberListener, Priority = 0 \<rparr> \<rparr>],
        bIsBroadcasting = False \<rparr>
      3 LambdaListener 1 False
    = (Some \<lparr> Addr = 3, Pointee = \<lparr> Callee = LambdaListener, Priority = 1 \<rparr> \<rparr>, ShowcaseEvent)
   \<and> Delegates ShowcaseEvent =
       takeWhile (\<lambda>y. PriorityOf ShowcaseFactory
                         (Pointee \<lparr> Addr = 3, Pointee = \<lparr> Callee = LambdaListener, Priority = 1 \<rparr> \<rparr>)
                       \<le> PriorityOf ShowcaseFactory (Pointee y))
         [\<lparr> Addr = 1, Pointee = \<lparr> Callee = FreeListener, Priority = 2 \<rparr> \<rparr>,
          \<lparr> Addr = 2, Pointee = \<lparr> Callee = MemberListener, Priority = 0 \<rparr> \<rparr>]
       @ \<lparr> Addr = 3, Pointee = \<lparr> Callee = LambdaListener, Priority = 1 \<rparr> \<rparr>
       # dropWhile (\<lambda>y. PriorityOf ShowcaseFactory
                         (Pointee \<lparr> Addr = 3, Pointee = \<lparr> Callee = LambdaListener, Priority = 1 \<rparr> \<rparr>)
                       \<le> PriorityOf ShowcaseFactory (Pointee y))
         [\<lparr> Addr = 1, Pointee = \<lparr> Callee = FreeListener, Priority = 2 \<rparr> \<rparr>,
          \<lparr> Addr = 2, Pointee = \<lparr> Callee = MemberListener, Priority = 0 \<rparr> \<rparr>]
   \<and> map Addr (Delegates ShowcaseEvent) = [1, 3, 2]
   \<and> Ret (Trigger ShowcaseFactory ShowcaseEvent ''Event #1'' [])
       = Some [Free, Callable, Member]
   \<and> World (Trigger ShowcaseFactory ShowcaseEvent ''Event #1'' [])
       = [''[Free] Event #1'', ''[Lambda] Event #1'', ''[Member] Event #1'']"
proof -
  let ?e = "\<lparr> Sig = StringSig,
        Delegates = [\<lparr> Addr = 1, Pointee = \<lparr> Callee = FreeListener, Priority = 2 \<rparr> \<rparr>,
                     \<lparr> Addr = 2, Pointee = \<lparr> Callee = MemberListener, Priority = 0 \<rparr> \<rparr>],
        bIsBroadcasting = False \<rparr>"
  let ?D = "\<lparr> Addr = 3, Pointee = \<lparr> Callee = LambdaListener, Priority = 1 \<rparr> \<rparr>"
  have h: "AddListener ShowcaseFactory ?e 3 LambdaListener 1 False = (Some ?D, ShowcaseEvent)"
    by (simp add: showcase_defs)
  have "AddListener ShowcaseFactory ?e 3 LambdaListener 1 False = (Some ?D, ShowcaseEvent) \<longrightarrow>
        Delegates ShowcaseEvent =
          takeWhile (\<lambda>y. PriorityOf ShowcaseFactory (Pointee ?D)
                          \<le> PriorityOf ShowcaseFactory (Pointee y)) (Delegates ?e)
          @ ?D # dropWhile (\<lambda>y. PriorityOf ShowcaseFactory (Pointee ?D)
                                 \<le> PriorityOf ShowcaseFactory (Pointee y)) (Delegates ?e)"
    using AddListener_keeps_priority_order [of ShowcaseFactory StringSig ShowcaseCalls]
    by blast
  with h have a1: "Delegates ShowcaseEvent =
          takeWhile (\<lambda>y. PriorityOf ShowcaseFactory (Pointee ?D)
                          \<le> PriorityOf ShowcaseFactory (Pointee y)) (Delegates ?e)
          @ ?D # dropWhile (\<lambda>y. PriorityOf ShowcaseFactory (Pointee ?D)
                                 \<le> PriorityOf ShowcaseFactory (Pointee y)) (Delegates ?e)"
    by blast
  have a2: "map Addr (Delegates ShowcaseEvent) = [1, 3, 2]"
    by (simp add: showcase_defs)
  have v: "\<not> is_void (Sig ShowcaseEvent)"
    by (simp add: ShowcaseEvent_eq StringSig_def is_void_def)
  have t: "World (Trigger ShowcaseFactory ShowcaseEvent ''Event #1'' [])
             = snd (call_each ShowcaseFactory (Delegates ShowcaseEvent) ''Event #1'' [])
           \<and> Ret (Trigger ShowcaseFactory ShowcaseEvent ''Event #1'' [])
             = (if is_void (Sig ShowcaseEvent) then None
                else Some (fst (call_each ShowcaseFactory (Delegates ShowcaseEvent)
                                  ''Event #1'' [])))"
    using AddListener_keeps_priority_order [of ShowcaseFactory StringSig ShowcaseCalls]
    by blast
  have a3: "Ret (Trigger ShowcaseFactory ShowcaseEvent ''Event #1'' [])
              = Some [Free, Callable, Member]"
    using t v by (simp add: Showcase_call_each)
  have a4: "World (Trigger ShowcaseFactory ShowcaseEvent ''Event #1'' [])
              = [''[Free] Event #1'', ''[Lambda] Event #1'', ''[Member] Event #1'']"
    using t by (simp add: Showcase_call_each)
  show ?thesis
  proof (intro conjI)
    show "Ret (Trigger ShowcaseFactory ShowcaseEvent ''Event #1'' [])
            = Some [Free, Callable, Member]"
      by (rule a3)
    show "World (Trigger ShowcaseFactory ShowcaseEvent ''Event #1'' [])
            = [''[Free] Event #1'', ''[Lambda] Event #1'', ''[Member] Event #1'']"
      by (rule a4)
  qed (use h a1 a2 in simp_all)
qed

text \<open>
  C2. \<^verbatim>\<open>Trigger\<close> sets the flag, then calls the delegates of the sequence, each once and
  in the stored order, then clears the flag; the event is otherwise unchanged. For a
  return type other than \<^verbatim>\<open>void\<close> it returns what the delegates returned, in that
  order; \<^verbatim>\<open>TriggerComplex\<close> returns the container to which these values were added in
  that order. Without listeners the result is empty and the state outside is unchanged.
\<close>

theorem Trigger_calls_each_delegate_in_order:
  "Trace (Trigger F e InArgs w)
     = SetBroadcasting True # map (\<lambda>D. Invoked (Addr D)) (Delegates e) @ [SetBroadcasting False]
   \<and> Ev (Trigger F e InArgs w) = e\<lparr> bIsBroadcasting := False \<rparr>
   \<and> World (Trigger F e InArgs w) = snd (call_each F (Delegates e) InArgs w)
   \<and> Ret (Trigger F e InArgs w)
       = (if is_void (Sig e) then None else Some (fst (call_each F (Delegates e) InArgs w)))
   \<and> length (fst (call_each F (Delegates e) InArgs w)) = length (Delegates e)
   \<and> Trace (TriggerComplex F e R0 Adder InArgs w) = Trace (Trigger F e InArgs w)
   \<and> Ev (TriggerComplex F e R0 Adder InArgs w) = e\<lparr> bIsBroadcasting := False \<rparr>
   \<and> World (TriggerComplex F e R0 Adder InArgs w) = World (Trigger F e InArgs w)
   \<and> Ret (TriggerComplex F e R0 Adder InArgs w)
       = (if is_void (Sig e) then None
          else Some (foldl Adder R0 (fst (call_each F (Delegates e) InArgs w))))
   \<and> (Delegates e = [] \<longrightarrow>
        Ret (Trigger F e InArgs w) = (if is_void (Sig e) then None else Some [])
        \<and> Ret (TriggerComplex F e R0 Adder InArgs w)
            = (if is_void (Sig e) then None else Some R0)
        \<and> World (Trigger F e InArgs w) = w
        \<and> Trace (Trigger F e InArgs w) = [SetBroadcasting True, SetBroadcasting False])"
  by (simp add: Trigger_def TriggerComplex_def Let_def Trigger_void_eq Trigger_value_eq
        TriggerComplex_value_eq length_call_each)

text \<open>
  The first broadcast of \<^verbatim>\<open>SingleEventTest\<close>, and a broadcast of an event without
  listeners.
\<close>

theorem Trigger_calls_each_delegate_in_order_witness:
  "Ret (Trigger ShowcaseFactory ShowcaseEvent ''Event #1'' []) = Some [Free, Callable, Member]
   \<and> World (Trigger ShowcaseFactory ShowcaseEvent ''Event #1'' [])
       = [''[Free] Event #1'', ''[Lambda] Event #1'', ''[Member] Event #1'']
   \<and> Trace (Trigger ShowcaseFactory ShowcaseEvent ''Event #1'' [])
       = [SetBroadcasting True, Invoked 1, Invoked 3, Invoked 2, SetBroadcasting False]
   \<and> Delegates (LEvent_new StringSig :: ShowcaseDelegate LEvent) = []
   \<and> Ret (Trigger ShowcaseFactory (LEvent_new StringSig) ''Event #3'' []) = Some []
   \<and> Ret (TriggerComplex ShowcaseFactory (LEvent_new StringSig) {} (\<lambda>C V. insert V C)
             ''Event #3'' []) = Some {}
   \<and> World (Trigger ShowcaseFactory (LEvent_new StringSig) ''Event #3'' []) = []"
proof -
  have e: "Delegates (LEvent_new StringSig :: ShowcaseDelegate LEvent) = []"
    by (simp add: LEvent_new_def)
  have v: "\<not> is_void (Sig (LEvent_new StringSig :: ShowcaseDelegate LEvent))"
    by (simp add: LEvent_new_def StringSig_def is_void_def)
  have s: "Delegates ShowcaseEvent =
      [\<lparr> Addr = 1, Pointee = \<lparr> Callee = FreeListener, Priority = 2 \<rparr> \<rparr>,
       \<lparr> Addr = 3, Pointee = \<lparr> Callee = LambdaListener, Priority = 1 \<rparr> \<rparr>,
       \<lparr> Addr = 2, Pointee = \<lparr> Callee = MemberListener, Priority = 0 \<rparr> \<rparr>]"
    "\<not> is_void (Sig ShowcaseEvent)"
    by (simp_all add: showcase_defs StringSig_def is_void_def)
  have c: "call_each ShowcaseFactory (Delegates ShowcaseEvent) ''Event #1'' []
             = ([Free, Callable, Member],
                [''[Free] Event #1'', ''[Lambda] Event #1'', ''[Member] Event #1''])"
    by (simp add: s ShowcaseFactory_def SimpleDelegateFactory_def FreeListener_def
          LambdaListener_def MemberListener_def)
  have d: "map (\<lambda>D. Invoked (Addr D)) (Delegates ShowcaseEvent)
             = [Invoked 1, Invoked 3, Invoked 2]"
    by (simp add: s)
  show ?thesis
    using Trigger_calls_each_delegate_in_order
            [of ShowcaseFactory ShowcaseEvent "''Event #1''" "[]" "{}" "\<lambda>C V. insert V C"]
          Trigger_calls_each_delegate_in_order
            [of ShowcaseFactory "LEvent_new StringSig" "''Event #3''" "[]" "{}" "\<lambda>C V. insert V C"]
    by (simp add: e v s(2) c d)
qed

lemma InsertDelegate_duplicate:
  "fst (InsertDelegate F e DelegatePtr False)
     = (\<forall>Data \<in> set (Delegates e). \<not> EqOp F (Pointee Data) (Pointee DelegatePtr))"
  by (simp add: InsertDelegate_def Let_def find_if_eq_length)

lemma AddListener_rejects:
  "\<not> bIsBroadcasting e \<Longrightarrow>
     (fst (AddListener F e addr FuncPtr p False) = None)
       = (\<exists>Data \<in> set (Delegates e). EqOp F (Pointee Data) (MakeDelegate F FuncPtr p))"
  using InsertDelegate_duplicate
          [of F e "\<lparr> Addr = addr, Pointee = MakeDelegate F FuncPtr p \<rparr>"]
  by (auto simp: AddListener_def Let_def split: prod.splits if_splits)

lemma AddListener_allow_duplicates:
  "\<not> bIsBroadcasting e \<Longrightarrow>
     \<exists>e'. AddListener F e addr FuncPtr p True
            = (Some \<lparr> Addr = addr, Pointee = MakeDelegate F FuncPtr p \<rparr>, e')
          \<and> length (Delegates e') = Suc (length (Delegates e))"
  by (simp add: AddListener_def InsertDelegate_def Let_def vector_insert_def)

lemma AddListener_Some_member:
  assumes "AddListener F e addr FuncPtr p dup = (Some D, e')"
  shows "D \<in> set (Delegates e') \<and> \<not> bIsBroadcasting e'"
  using AddListener_result [OF assms] by auto

text \<open>
  The equality of \<^verbatim>\<open>SimpleDelegateFactory::Delegate\<close> never holds, so an event made
  with this factory never takes a listener for a duplicate.
\<close>

lemma SimpleDelegateFactory_never_rejects:
  "\<not> bIsBroadcasting e \<Longrightarrow> fst (AddListener SimpleDelegateFactory e addr FuncPtr p dup) \<noteq> None"
  by (simp add: AddListener_def InsertDelegate_def Let_def SimpleDelegateFactory_def
        find_if_eq_length)

text \<open>
  C3. After a listener has been added, a second \<^verbatim>\<open>AddListener\<close> with
  \<^verbatim>\<open>AllowDuplicates = false\<close> for a delegate that the factory's equality identifies with
  the stored one returns null and leaves the event as it is, while a second
  \<^verbatim>\<open>AddListener\<close> with \<^verbatim>\<open>AllowDuplicates = true\<close> returns the new delegate and makes
  the sequence one longer. On an event that is not broadcasting, \<^verbatim>\<open>AddListener\<close> with
  \<^verbatim>\<open>AllowDuplicates = false\<close> returns null exactly when the factory's equality
  identifies a stored delegate with the new one.
\<close>

theorem AddListener_duplicates:
  "(AddListener F e addr1 FuncPtr p1 dup1 = (Some D1, e1) \<longrightarrow>
      EqOp F (Pointee D1) (MakeDelegate F FuncPtr p2) \<longrightarrow>
      AddListener F e1 addr2 FuncPtr p2 False = (None, e1))
   \<and> (AddListener F e addr1 FuncPtr p1 dup1 = (Some D1, e1) \<longrightarrow>
      (\<exists>e2. AddListener F e1 addr2 FuncPtr p2 True
               = (Some \<lparr> Addr = addr2, Pointee = MakeDelegate F FuncPtr p2 \<rparr>, e2)
            \<and> length (Delegates e2) = Suc (length (Delegates e1))))
   \<and> (\<not> bIsBroadcasting e \<longrightarrow>
      (fst (AddListener F e addr1 FuncPtr p1 False) = None)
        = (\<exists>Data \<in> set (Delegates e). EqOp F (Pointee Data) (MakeDelegate F FuncPtr p1)))"
proof (intro conjI impI)
  assume a: "AddListener F e addr1 FuncPtr p1 dup1 = (Some D1, e1)"
    and eq: "EqOp F (Pointee D1) (MakeDelegate F FuncPtr p2)"
  from AddListener_Some_member [OF a]
  have m: "D1 \<in> set (Delegates e1)" and nb: "\<not> bIsBroadcasting e1" by auto
  from m eq have "\<exists>Data \<in> set (Delegates e1). EqOp F (Pointee Data) (MakeDelegate F FuncPtr p2)"
    by blast
  with AddListener_rejects [OF nb, of F addr2 FuncPtr p2]
  have r: "fst (AddListener F e1 addr2 FuncPtr p2 False) = None" by simp
  obtain r' e' where s: "AddListener F e1 addr2 FuncPtr p2 False = (r', e')"
    by (cases "AddListener F e1 addr2 FuncPtr p2 False") auto
  from AddListener_result [OF s] r s show "AddListener F e1 addr2 FuncPtr p2 False = (None, e1)"
    by auto
next
  assume a: "AddListener F e addr1 FuncPtr p1 dup1 = (Some D1, e1)"
  from AddListener_Some_member [OF a] have nb: "\<not> bIsBroadcasting e1" by auto
  from AddListener_allow_duplicates [OF nb]
  show "\<exists>e2. AddListener F e1 addr2 FuncPtr p2 True
               = (Some \<lparr> Addr = addr2, Pointee = MakeDelegate F FuncPtr p2 \<rparr>, e2)
            \<and> length (Delegates e2) = Suc (length (Delegates e1))" .
next
  assume "\<not> bIsBroadcasting e"
  then show "(fst (AddListener F e addr1 FuncPtr p1 False) = None)
        = (\<exists>Data \<in> set (Delegates e). EqOp F (Pointee Data) (MakeDelegate F FuncPtr p1))"
    by (rule AddListener_rejects)
qed

text \<open>
  For the first part a factory whose delegates are a function pointer (a number) with a
  priority and compare equal when the function pointers are the same: the second
  \<^verbatim>\<open>AddListener\<close> for the function 7 is refused. For the second part the factory of the
  showcase: \<^verbatim>\<open>FreeListener\<close> is added twice.
\<close>

theorem AddListener_duplicates_witness:
  "AddListener
      \<lparr> MakeDelegate = (\<lambda>f p. (f, p)), PriorityOf = snd,
        CallOp = (\<lambda>d (InArgs :: unit) (w :: unit). ((), w)),
        EqOp = (\<lambda>d Other. fst d = fst Other) \<rparr>
      (LEvent_new StringSig) 1 (7 :: nat) 0 False
     = (Some \<lparr> Addr = 1, Pointee = (7, 0) \<rparr>,
        \<lparr> Sig = StringSig, Delegates = [\<lparr> Addr = 1, Pointee = (7, 0) \<rparr>],
          bIsBroadcasting = False \<rparr>)
   \<and> AddListener
      \<lparr> MakeDelegate = (\<lambda>f p. (f, p)), PriorityOf = snd,
        CallOp = (\<lambda>d (InArgs :: unit) (w :: unit). ((), w)),
        EqOp = (\<lambda>d Other. fst d = fst Other) \<rparr>
      \<lparr> Sig = StringSig, Delegates = [\<lparr> Addr = 1, Pointee = (7, 0) \<rparr>],
        bIsBroadcasting = False \<rparr> 2 (7 :: nat) 5 False
     = (None, \<lparr> Sig = StringSig, Delegates = [\<lparr> Addr = 1, Pointee = (7, 0) \<rparr>],
                bIsBroadcasting = False \<rparr>)
   \<and> AddListener ShowcaseFactory (LEvent_new StringSig) 1 FreeListener 0 True
     = (Some \<lparr> Addr = 1, Pointee = \<lparr> Callee = FreeListener, Priority = 0 \<rparr> \<rparr>,
        \<lparr> Sig = StringSig,
          Delegates = [\<lparr> Addr = 1, Pointee = \<lparr> Callee = FreeListener, Priority = 0 \<rparr> \<rparr>],
          bIsBroadcasting = False \<rparr>)
   \<and> AddListener ShowcaseFactory
        \<lparr> Sig = StringSig,
          Delegates = [\<lparr> Addr = 1, Pointee = \<lparr> Callee = FreeListener, Priority = 0 \<rparr> \<rparr>],
          bIsBroadcasting = False \<rparr> 2 FreeListener 0 True
     = (Some \<lparr> Addr = 2, Pointee = \<lparr> Callee = FreeListener, Priority = 0 \<rparr> \<rparr>,
        \<lparr> Sig = StringSig,
          Delegates = [\<lparr> Addr = 1, Pointee = \<lparr> Callee = FreeListener, Priority = 0 \<rparr> \<rparr>,
                       \<lparr> Addr = 2, Pointee = \<lparr> Callee = FreeListener, Priority = 0 \<rparr> \<rparr>],
          bIsBroadcasting = False \<rparr>)"
proof -
  let ?F = "\<lparr> MakeDelegate = (\<lambda>f p. (f, p)), PriorityOf = snd,
        CallOp = (\<lambda>d (InArgs :: unit) (w :: unit). ((), w)),
        EqOp = (\<lambda>d Other. fst d = fst Other) \<rparr>
        :: (nat, nat \<times> int, unit, unit, unit) DelegateFactory"
  let ?e1 = "\<lparr> Sig = StringSig, Delegates = [\<lparr> Addr = 1, Pointee = (7 :: nat, 0 :: int) \<rparr>],
          bIsBroadcasting = False \<rparr>"
  have h1: "AddListener ?F (LEvent_new StringSig) 1 7 0 False
              = (Some \<lparr> Addr = 1, Pointee = (7, 0) \<rparr>, ?e1)"
    by (simp add: AddListener_def InsertDelegate_def LEvent_new_def vector_insert_def Let_def)
  have h2: "EqOp ?F (Pointee \<lparr> Addr = 1, Pointee = (7 :: nat, 0 :: int) \<rparr>) (MakeDelegate ?F 7 5)"
    by simp
  have r1: "AddListener ?F ?e1 2 7 5 False = (None, ?e1)"
    using AddListener_duplicates
            [of ?F "LEvent_new StringSig" 1 7 0 False "\<lparr> Addr = 1, Pointee = (7, 0) \<rparr>" ?e1 5 2]
          h1 h2
    by blast
  let ?g1 = "\<lparr> Sig = StringSig,
          Delegates = [\<lparr> Addr = 1, Pointee = \<lparr> Callee = FreeListener, Priority = 0 \<rparr> \<rparr>],
          bIsBroadcasting = False \<rparr>"
  have h3: "AddListener ShowcaseFactory (LEvent_new StringSig) 1 FreeListener 0 True
              = (Some \<lparr> Addr = 1, Pointee = \<lparr> Callee = FreeListener, Priority = 0 \<rparr> \<rparr>, ?g1)"
    by (simp add: showcase_defs)
  have r2: "AddListener ShowcaseFactory ?g1 2 FreeListener 0 True
     = (Some \<lparr> Addr = 2, Pointee = \<lparr> Callee = FreeListener, Priority = 0 \<rparr> \<rparr>,
        \<lparr> Sig = StringSig,
          Delegates = [\<lparr> Addr = 1, Pointee = \<lparr> Callee = FreeListener, Priority = 0 \<rparr> \<rparr>,
                       \<lparr> Addr = 2, Pointee = \<lparr> Callee = FreeListener, Priority = 0 \<rparr> \<rparr>],
          bIsBroadcasting = False \<rparr>)"
    by (simp add: showcase_defs)
  from h1 r1 h3 r2 show ?thesis by simp
qed

text \<open>
  C4. While the broadcasting flag of an event is set, \<^verbatim>\<open>AddListener\<close> returns null,
  \<^verbatim>\<open>RemoveListener\<close> with a delegate pointer returns
  \<^verbatim>\<open>ModifyingCallbackListDuringBroadcast\<close>, \<^verbatim>\<open>RemoveListener\<close> with a connection returns
  without an exception, and each of them leaves the event, its sequence of delegates
  included, as it was.
\<close>

theorem no_mutation_while_broadcasting:
  "bIsBroadcasting e \<Longrightarrow>
     AddListener F e addr FuncPtr p dup = (None, e)
     \<and> RemoveListener e DelegatePtr = (ModifyingCallbackListDuringBroadcast, e)
     \<and> RemoveListener_Connection e Conn = Inr e"
  by (simp add: AddListener_def RemoveListener_def RemoveListener_Connection_def)

text \<open>
  The event of the showcase in the middle of a broadcast: adding a listener and removing
  the lambda, by pointer or through a connection, are refused.
\<close>

theorem no_mutation_while_broadcasting_witness:
  "bIsBroadcasting (ShowcaseEvent\<lparr> bIsBroadcasting := True \<rparr>)
   \<and> AddListener ShowcaseFactory (ShowcaseEvent\<lparr> bIsBroadcasting := True \<rparr>)
        4 FreeListener 5 True
      = (None, ShowcaseEvent\<lparr> bIsBroadcasting := True \<rparr>)
   \<and> RemoveListener (ShowcaseEvent\<lparr> bIsBroadcasting := True \<rparr>)
        (Some \<lparr> Addr = 3, Pointee = \<lparr> Callee = LambdaListener, Priority = 1 \<rparr> \<rparr>)
      = (ModifyingCallbackListDuringBroadcast, ShowcaseEvent\<lparr> bIsBroadcasting := True \<rparr>)
   \<and> RemoveListener_Connection (ShowcaseEvent\<lparr> bIsBroadcasting := True \<rparr>)
        (Connection_new (Some 0) StringSig
           (Some \<lparr> Addr = 3, Pointee = \<lparr> Callee = LambdaListener, Priority = 1 \<rparr> \<rparr>))
      = Inr (ShowcaseEvent\<lparr> bIsBroadcasting := True \<rparr>)
   \<and> map Addr (Delegates (ShowcaseEvent\<lparr> bIsBroadcasting := True \<rparr>)) = [1, 3, 2]"
proof -
  have h: "bIsBroadcasting (ShowcaseEvent\<lparr> bIsBroadcasting := True \<rparr>)" by simp
  have d: "map Addr (Delegates (ShowcaseEvent\<lparr> bIsBroadcasting := True \<rparr>)) = [1, 3, 2]"
    by (simp add: showcase_defs)
  from no_mutation_while_broadcasting
         [OF h, of ShowcaseFactory 4 FreeListener 5 True
            "Some \<lparr> Addr = 3, Pointee = \<lparr> Callee = LambdaListener, Priority = 1 \<rparr> \<rparr>"
            "Connection_new (Some 0) StringSig
               (Some \<lparr> Addr = 3, Pointee = \<lparr> Callee = LambdaListener, Priority = 1 \<rparr> \<rparr>)"]
       h d
  show ?thesis by simp
qed

section \<open>Claims about the manager\<close>

lemma TriggerEvent_blocked:
  "bEventsBlocked m \<Longrightarrow>
     TriggerEvent F ID sig InArgs m h w
       = \<lparr> mRet = (if is_void sig then None else Some [], EventsBlocked),
           mHeap = h, mWorld = w, mTrace = [] \<rparr>"
  by (simp add: TriggerEvent_def)

lemma TriggerEventComplex_blocked:
  "bEventsBlocked m \<Longrightarrow>
     TriggerEventComplex F ID sig R0 Adder InArgs m h w
       = \<lparr> mRet = (R0, EventsBlocked), mHeap = h, mWorld = w, mTrace = [] \<rparr>"
  by (simp add: TriggerEventComplex_def)

lemma DeclareEvent_bEventsBlocked:
  "bEventsBlocked (fst (snd (DeclareEvent ID sig CanReplace m h))) = bEventsBlocked m"
  by (simp add: DeclareEvent_def Let_def)

lemma exec_call_blocked:
  assumes "bEventsBlocked m" and "call \<noteq> CallBlockEvents False"
  shows "bEventsBlocked (fst (snd (exec_call F call (m, h, w))))
         \<and> snd (snd (snd (exec_call F call (m, h, w)))) = w
         \<and> (is_trigger call \<longrightarrow> fst (exec_call F call (m, h, w)) = (Some EventsBlocked, []))"
proof (cases call)
  case (CallBlockEvents b)
  with assms show ?thesis by (cases b) (simp_all add: BlockEvents_def)
next
  case (CallDeclareEvent ID sig CanReplace)
  with assms DeclareEvent_bEventsBlocked [of ID sig CanReplace m h] show ?thesis
    by (auto split: prod.splits)
next
  case (CallAddEventListener ID sig addr FuncPtr p dup)
  with assms show ?thesis by (auto split: prod.splits)
next
  case (CallTriggerEvent ID sig InArgs)
  with assms show ?thesis by (simp add: TriggerEvent_blocked Let_def)
next
  case (CallTriggerEventComplex ID sig R0 Adder InArgs)
  with assms show ?thesis by (simp add: TriggerEventComplex_blocked Let_def)
next
  case CallDestroyAll
  with assms show ?thesis by (simp add: DestroyAll_def)
next
  case (CallDisconnect Conn)
  with assms show ?thesis by (auto split: sum.splits prod.splits)
qed

lemma exec_calls_blocked:
  assumes "bEventsBlocked m" and "CallBlockEvents False \<notin> set calls"
  shows "snd (snd (snd (exec_calls F calls (m, h, w)))) = w
         \<and> (\<forall>i < length calls. is_trigger (calls ! i) \<longrightarrow>
               fst (exec_calls F calls (m, h, w)) ! i = (Some EventsBlocked, []))"
  using assms
proof (induction calls arbitrary: m h)
  case Nil
  show ?case by simp
next
  case (Cons call calls)
  obtain r m1 h1 w1 where step: "exec_call F call (m, h, w) = (r, m1, h1, w1)"
    by (cases "exec_call F call (m, h, w)") auto
  from Cons.prems have ne: "call \<noteq> CallBlockEvents False"
    and rest: "CallBlockEvents False \<notin> set calls" by auto
  from exec_call_blocked [OF Cons.prems(1) ne, of F h w] step
  have b1: "bEventsBlocked m1" and w1: "w1 = w"
    and r: "is_trigger call \<longrightarrow> r = (Some EventsBlocked, [])" by auto
  note IH = Cons.IH [OF b1 rest, of h1]
  have w': "snd (snd (snd (exec_calls F (call # calls) (m, h, w)))) = w"
    using IH by (simp add: step w1 case_prod_beta)
  have "is_trigger ((call # calls) ! i) \<longrightarrow>
          fst (exec_calls F (call # calls) (m, h, w)) ! i = (Some EventsBlocked, [])"
    if "i < length (call # calls)" for i
  proof (cases i)
    case 0
    with r show ?thesis by (simp add: step case_prod_beta)
  next
    case (Suc j)
    with that have "j < length calls" by simp
    with IH have "is_trigger (calls ! j) \<longrightarrow>
        fst (exec_calls F calls (m1, h1, w)) ! j = (Some EventsBlocked, [])" by blast
    with Suc show ?thesis by (simp add: step w1 case_prod_beta)
  qed
  with w' show ?case by blast
qed

text \<open>
  C5. Once \<^verbatim>\<open>BlockEvents(true)\<close> has been called, in every sequence of later calls that
  does not call \<^verbatim>\<open>BlockEvents(false)\<close> each \<^verbatim>\<open>TriggerEvent\<close> and
  \<^verbatim>\<open>TriggerEventComplex\<close> returns \<^verbatim>\<open>EventsBlocked\<close> and calls no listener, and the state
  outside the events is at the end what it was. A blocked trigger returns
  \<^verbatim>\<open>EventsBlocked\<close> with empty results and leaves the store alone whatever the identifier,
  the slot and the signature are; after \<^verbatim>\<open>BlockEvents(false)\<close> a trigger does not return
  \<^verbatim>\<open>EventsBlocked\<close>.
\<close>

theorem BlockEvents_blocks_every_trigger:
  "CallBlockEvents False \<notin> set calls \<Longrightarrow>
     (\<forall>i < length calls. is_trigger (calls ! i) \<longrightarrow>
        fst (exec_calls F calls (BlockEvents True m, h, w)) ! i = (Some EventsBlocked, []))
     \<and> snd (snd (snd (exec_calls F calls (BlockEvents True m, h, w)))) = w
     \<and> TriggerEvent F ID sig InArgs (BlockEvents True m) h w
         = \<lparr> mRet = (if is_void sig then None else Some [], EventsBlocked),
             mHeap = h, mWorld = w, mTrace = [] \<rparr>
     \<and> TriggerEventComplex F ID sig R0 Adder InArgs (BlockEvents True m) h w
         = \<lparr> mRet = (R0, EventsBlocked), mHeap = h, mWorld = w, mTrace = [] \<rparr>
     \<and> snd (mRet (TriggerEvent F ID sig InArgs (BlockEvents False m) h w)) \<noteq> EventsBlocked
     \<and> snd (mRet (TriggerEventComplex F ID sig R0 Adder InArgs (BlockEvents False m) h w))
         \<noteq> EventsBlocked"
proof -
  assume a: "CallBlockEvents False \<notin> set calls"
  have b: "bEventsBlocked (BlockEvents True m)" by (simp add: BlockEvents_def)
  have nb: "\<not> bEventsBlocked (BlockEvents False m)" by (simp add: BlockEvents_def)
  from exec_calls_blocked [OF b a, of F h w]
  have 1: "\<forall>i < length calls. is_trigger (calls ! i) \<longrightarrow>
        fst (exec_calls F calls (BlockEvents True m, h, w)) ! i = (Some EventsBlocked, [])"
    and 2: "snd (snd (snd (exec_calls F calls (BlockEvents True m, h, w)))) = w"
    by blast+
  have 3: "snd (mRet (TriggerEvent F ID sig InArgs (BlockEvents False m) h w)) \<noteq> EventsBlocked"
    using nb by (simp add: TriggerEvent_def Let_def)
  have 4: "snd (mRet (TriggerEventComplex F ID sig R0 Adder InArgs (BlockEvents False m) h w))
         \<noteq> EventsBlocked"
    using nb by (simp add: TriggerEventComplex_def Let_def)
  from 1 2 3 4 show ?thesis
    by (simp add: TriggerEvent_blocked [OF b] TriggerEventComplex_blocked [OF b])
qed

text \<open>
  The calls of \<open>ShowcaseMgrCalls\<close> after \<^verbatim>\<open>BlockEvents(true)\<close>: both triggers are
  blocked. Without \<^verbatim>\<open>BlockEvents(true)\<close> the first of them runs the three listeners.
\<close>

theorem BlockEvents_blocks_every_trigger_witness:
  "CallBlockEvents False \<notin> set ShowcaseMgrCalls
   \<and> is_trigger (ShowcaseMgrCalls ! 0) \<and> is_trigger (ShowcaseMgrCalls ! 2)
   \<and> fst (exec_calls ShowcaseFactory ShowcaseMgrCalls
             (BlockEvents True ShowcaseMgr, ShowcaseHeap, [])) ! 0 = (Some EventsBlocked, [])
   \<and> fst (exec_calls ShowcaseFactory ShowcaseMgrCalls
             (BlockEvents True ShowcaseMgr, ShowcaseHeap, [])) ! 2 = (Some EventsBlocked, [])
   \<and> snd (snd (snd (exec_calls ShowcaseFactory ShowcaseMgrCalls
             (BlockEvents True ShowcaseMgr, ShowcaseHeap, [])))) = []
   \<and> fst (exec_call ShowcaseFactory (ShowcaseMgrCalls ! 0) (ShowcaseMgr, ShowcaseHeap, []))
       = (Some OK, [SetBroadcasting True, Invoked 1, Invoked 3, Invoked 2,
                    SetBroadcasting False])"
proof -
  have h: "CallBlockEvents False \<notin> set ShowcaseMgrCalls"
    by (simp add: ShowcaseMgrCalls_def)
  have t: "is_trigger (ShowcaseMgrCalls ! 0)" "is_trigger (ShowcaseMgrCalls ! 2)"
    "0 < length ShowcaseMgrCalls" "2 < length ShowcaseMgrCalls"
    by (simp_all add: ShowcaseMgrCalls_def)
  note T = BlockEvents_blocks_every_trigger
             [OF h, of ShowcaseFactory ShowcaseMgr ShowcaseHeap "[]" 0 StringSig "''Error''"
                "{}" "\<lambda>S V. insert V S"]
  from T t have r0: "fst (exec_calls ShowcaseFactory ShowcaseMgrCalls
             (BlockEvents True ShowcaseMgr, ShowcaseHeap, [])) ! 0 = (Some EventsBlocked, [])"
    by blast
  from T t have r2: "fst (exec_calls ShowcaseFactory ShowcaseMgrCalls
             (BlockEvents True ShowcaseMgr, ShowcaseHeap, [])) ! 2 = (Some EventsBlocked, [])"
    by blast
  from T have w: "snd (snd (snd (exec_calls ShowcaseFactory ShowcaseMgrCalls
             (BlockEvents True ShowcaseMgr, ShowcaseHeap, [])))) = []"
    by blast
  have v: "\<not> is_void StringSig" by (simp add: StringSig_def is_void_def)
  have u: "fst (exec_call ShowcaseFactory (ShowcaseMgrCalls ! 0)
                  (ShowcaseMgr, ShowcaseHeap, []))
       = (Some OK, [SetBroadcasting True, Invoked 1, Invoked 3, Invoked 2,
                    SetBroadcasting False])"
    by (simp add: ShowcaseMgrCalls_def TriggerEvent_def v ShowcaseMgr_def ShowcaseHeap_def
          slot_mismatch_def Let_def Trigger_value_eq)
       (simp add: ShowcaseEvent_eq)
  from h t r0 r2 w u show ?thesis by simp
qed

text \<open>
  C6, as stated, does not hold while events are blocked: the block flag is tested before
  the slot, and a trigger of an empty slot then returns \<^verbatim>\<open>EventsBlocked\<close>.
\<close>

theorem TriggerEvent_mismatch_blocked_counterexample:
  "Events (BlockEvents True ShowcaseMgr) ! 1 = None
   \<and> snd (mRet (TriggerEvent ShowcaseFactory 1 StringSig ''Error''
                  (BlockEvents True ShowcaseMgr) ShowcaseHeap []))
       = EventsBlocked
   \<and> EventsBlocked \<noteq> FailedToMatchEventType"
  by (simp add: TriggerEvent_def BlockEvents_def ShowcaseMgr_def)

text \<open>
  C6, amended. For an identifier whose slot is empty or holds an event of another signature
  than the one of the caller's type arguments, \<^verbatim>\<open>TriggerEvent\<close> calls no listener and
  changes neither the store nor the state outside; it returns
  \<^verbatim>\<open>FailedToMatchEventType\<close> when events are not blocked and \<^verbatim>\<open>EventsBlocked\<close> when
  they are, with no results (empty results for a return type other than \<^verbatim>\<open>void\<close>).
\<close>

theorem TriggerEvent_mismatch:
  "Events m ! ID = None \<or> (\<exists>T p. Events m ! ID = Some (T, p) \<and> T \<noteq> sig) \<Longrightarrow>
     TriggerEvent F ID sig InArgs m h w
       = \<lparr> mRet = (if is_void sig then None else Some [],
                   if bEventsBlocked m then EventsBlocked else FailedToMatchEventType),
           mHeap = h, mWorld = w, mTrace = [] \<rparr>
     \<and> exec_call F (CallTriggerEvent ID sig InArgs) (m, h, w)
         = ((Some (if bEventsBlocked m then EventsBlocked else FailedToMatchEventType), []),
            (m, h, w))"
  by (auto simp: TriggerEvent_def slot_mismatch_def)

text \<open>
  In the manager of the showcase the slot 1 is empty, and the slot 0 holds an event of
  another signature than \<^verbatim>\<open>void(int&)\<close>.
\<close>

theorem TriggerEvent_mismatch_witness:
  "Events ShowcaseMgr ! 1 = None
   \<and> TriggerEvent ShowcaseFactory 1 StringSig ''Error'' ShowcaseMgr ShowcaseHeap []
       = \<lparr> mRet = (Some [], FailedToMatchEventType),
           mHeap = ShowcaseHeap, mWorld = [], mTrace = [] \<rparr>
   \<and> Events ShowcaseMgr ! 0 = Some (StringSig, 0)
   \<and> StringSig \<noteq> \<lparr> ReturnType = ''void'', Args = [''int&''] \<rparr>
   \<and> TriggerEvent ShowcaseFactory 0 \<lparr> ReturnType = ''void'', Args = [''int&''] \<rparr> ''Error''
         ShowcaseMgr ShowcaseHeap []
       = \<lparr> mRet = (None, FailedToMatchEventType),
           mHeap = ShowcaseHeap, mWorld = [], mTrace = [] \<rparr>"
proof -
  have s1: "Events ShowcaseMgr ! 1 = None"
    and s0: "Events ShowcaseMgr ! 0 = Some (StringSig, 0)"
    and nb: "\<not> bEventsBlocked ShowcaseMgr"
    by (simp_all add: ShowcaseMgr_def)
  have ne: "StringSig \<noteq> \<lparr> ReturnType = ''void'', Args = [''int&''] \<rparr>"
    by (simp add: StringSig_def)
  have h1: "Events ShowcaseMgr ! 1 = None
            \<or> (\<exists>T p. Events ShowcaseMgr ! 1 = Some (T, p) \<and> T \<noteq> StringSig)"
    using s1 by simp
  have h0: "Events ShowcaseMgr ! 0 = None
            \<or> (\<exists>T p. Events ShowcaseMgr ! 0 = Some (T, p)
                     \<and> T \<noteq> \<lparr> ReturnType = ''void'', Args = [''int&''] \<rparr>)"
    using s0 ne by simp
  have v: "\<not> is_void StringSig" "is_void \<lparr> ReturnType = ''void'', Args = [''int&''] \<rparr>"
    by (simp_all add: StringSig_def is_void_def)
  from TriggerEvent_mismatch [OF h1, of ShowcaseFactory "''Error''" ShowcaseHeap "[]"]
       TriggerEvent_mismatch [OF h0, of ShowcaseFactory "''Error''" ShowcaseHeap "[]"]
       s1 s0 ne nb v
  show ?thesis by simp
qed

lemma DeclareEvent_result:
  "DeclareEvent ID sig CanReplace m h =
     (if CanReplace \<or> Events m ! ID = None
      then (True, m\<lparr> Events := (Events m)[ID := Some (sig, length h)] \<rparr>, h @ [LEvent_new sig])
      else (False, m, h))"
  by (simp add: DeclareEvent_def Let_def)

text \<open>
  C8. For an identifier of the enumeration, \<^verbatim>\<open>DeclareEvent\<close> with an empty slot or with
  \<^verbatim>\<open>CanReplace\<close> returns true and puts into the slot a pointer to a newly allocated event
  of the signature, without listeners and not broadcasting; the other slots, the block
  flag and the events allocated before are as they were. With an occupied slot and without
  \<^verbatim>\<open>CanReplace\<close> it returns false and changes nothing.
\<close>

theorem DeclareEvent_fresh_or_refused:
  "ID < length (Events m) \<Longrightarrow>
     (CanReplace \<or> Events m ! ID = None \<longrightarrow>
        (\<exists>m' h'. DeclareEvent ID sig CanReplace m h = (True, m', h')
           \<and> Events m' ! ID = Some (sig, length h)
           \<and> h' ! length h = LEvent_new sig
           \<and> Sig (h' ! length h) = sig
           \<and> Delegates (h' ! length h) = []
           \<and> \<not> bIsBroadcasting (h' ! length h)
           \<and> length h' = Suc (length h)
           \<and> (\<forall>q < length h. h' ! q = h ! q)
           \<and> length (Events m') = length (Events m)
           \<and> (\<forall>j. j \<noteq> ID \<longrightarrow> Events m' ! j = Events m ! j)
           \<and> bEventsBlocked m' = bEventsBlocked m))
     \<and> (\<not> CanReplace \<and> Events m ! ID \<noteq> None \<longrightarrow>
          DeclareEvent ID sig CanReplace m h = (False, m, h))"
  by (simp add: DeclareEvent_result LEvent_new_def nth_append)

text \<open>
  The declaration of \<^verbatim>\<open>EventMgrTest\<close> in a new manager with three slots; a second
  declaration for the same identifier is refused without \<^verbatim>\<open>CanReplace\<close> and replaces the
  event with it.
\<close>

theorem DeclareEvent_fresh_or_refused_witness:
  "(0 :: nat) < length (Events (Manager_new 3))
   \<and> Events (Manager_new 3) ! 0 = None
   \<and> DeclareEvent 0 StringSig False (Manager_new 3) ([] :: ShowcaseDelegate heap)
       = (True, ShowcaseMgr, [LEvent_new StringSig])
   \<and> Events ShowcaseMgr ! 0 \<noteq> None
   \<and> DeclareEvent 0 \<lparr> ReturnType = ''void'', Args = [''int&''] \<rparr> False ShowcaseMgr ShowcaseHeap
       = (False, ShowcaseMgr, ShowcaseHeap)
   \<and> DeclareEvent 0 \<lparr> ReturnType = ''void'', Args = [''int&''] \<rparr> True ShowcaseMgr ShowcaseHeap
       = (True,
          \<lparr> Events = [Some (\<lparr> ReturnType = ''void'', Args = [''int&''] \<rparr>, 1), None, None],
            bEventsBlocked = False \<rparr>,
          [ShowcaseEvent, LEvent_new \<lparr> ReturnType = ''void'', Args = [''int&''] \<rparr>])"
proof -
  have l: "(0 :: nat) < length (Events (Manager_new 3))"
    and n: "Events (Manager_new 3) ! 0 = None"
    by (simp_all add: Manager_new_def numeral_3_eq_3)
  have l': "(0 :: nat) < length (Events ShowcaseMgr)"
    and n': "Events ShowcaseMgr ! 0 \<noteq> None"
    by (simp_all add: ShowcaseMgr_def)
  have d1: "DeclareEvent 0 StringSig False (Manager_new 3) ([] :: ShowcaseDelegate heap)
       = (True, ShowcaseMgr, [LEvent_new StringSig])"
    by (simp add: DeclareEvent_result Manager_new_def numeral_3_eq_3 ShowcaseMgr_def)
  have d2: "DeclareEvent 0 \<lparr> ReturnType = ''void'', Args = [''int&''] \<rparr> False
              ShowcaseMgr ShowcaseHeap = (False, ShowcaseMgr, ShowcaseHeap)"
    using DeclareEvent_fresh_or_refused
            [OF l', of False "\<lparr> ReturnType = ''void'', Args = [''int&''] \<rparr>" ShowcaseHeap] n'
    by simp
  have d3: "DeclareEvent 0 \<lparr> ReturnType = ''void'', Args = [''int&''] \<rparr> True
              ShowcaseMgr ShowcaseHeap
       = (True,
          \<lparr> Events = [Some (\<lparr> ReturnType = ''void'', Args = [''int&''] \<rparr>, 1), None, None],
            bEventsBlocked = False \<rparr>,
          [ShowcaseEvent, LEvent_new \<lparr> ReturnType = ''void'', Args = [''int&''] \<rparr>])"
    by (simp add: DeclareEvent_result ShowcaseMgr_def ShowcaseHeap_def)
  from l n d1 n' d2 d3 show ?thesis by simp
qed

section \<open>Claims about Connection\<close>

lemma vector_erase_find_if:
  "vector_erase (find_if P xs) xs
     = takeWhile (\<lambda>x. \<not> P x) xs @ tl (dropWhile (\<lambda>x. \<not> P x) xs)"
  by (simp add: vector_erase_def take_find_if drop_Suc drop_find_if flip: tl_drop)

lemma find_if_absent: "\<forall>x \<in> set xs. \<not> P x \<Longrightarrow> find_if P xs = length xs"
  by (simp add: find_if_eq_length)

lemma erase_first_absent:
  "\<forall>x \<in> set xs. \<not> P x \<Longrightarrow>
     takeWhile (\<lambda>x. \<not> P x) xs @ tl (dropWhile (\<lambda>x. \<not> P x) xs) = xs"
  by (induction xs) auto

lemma filter_erase_first:
  "filter (\<lambda>x. \<not> P x) (takeWhile (\<lambda>x. \<not> P x) xs @ tl (dropWhile (\<lambda>x. \<not> P x) xs))
     = filter (\<lambda>x. \<not> P x) xs"
  by (induction xs) auto

lemma RemoveListener_Connection_result:
  assumes "Delegate Conn = AnyPtr (Sig e) DelegatePtr"
  shows "RemoveListener_Connection e Conn =
           Inr (if bIsBroadcasting e then e
                else e\<lparr> Delegates :=
                        takeWhile (\<lambda>D. \<not> ptr_eq D DelegatePtr) (Delegates e)
                        @ tl (dropWhile (\<lambda>D. \<not> ptr_eq D DelegatePtr) (Delegates e)) \<rparr>)"
proof (cases "find_if (\<lambda>D. ptr_eq D DelegatePtr) (Delegates e) = length (Delegates e)")
  case True
  then have "\<forall>D \<in> set (Delegates e). \<not> ptr_eq D DelegatePtr"
    by (simp add: find_if_eq_length)
  then have "takeWhile (\<lambda>D. \<not> ptr_eq D DelegatePtr) (Delegates e)
               @ tl (dropWhile (\<lambda>D. \<not> ptr_eq D DelegatePtr) (Delegates e)) = Delegates e"
    by (rule erase_first_absent)
  with True assms show ?thesis
    by (simp add: RemoveListener_Connection_def Let_def)
next
  case False
  with assms show ?thesis
    by (simp add: RemoveListener_Connection_def Let_def vector_erase_find_if)
qed

lemma RemoveListener_result:
  "RemoveListener e DelegatePtr =
     (if bIsBroadcasting e then (ModifyingCallbackListDuringBroadcast, e)
      else (OK, e\<lparr> Delegates :=
                     takeWhile (\<lambda>D. \<not> ptr_eq D DelegatePtr) (Delegates e)
                     @ tl (dropWhile (\<lambda>D. \<not> ptr_eq D DelegatePtr) (Delegates e)) \<rparr>))"
proof (cases "find_if (\<lambda>D. ptr_eq D DelegatePtr) (Delegates e) = length (Delegates e)")
  case True
  then have "\<forall>D \<in> set (Delegates e). \<not> ptr_eq D DelegatePtr"
    by (simp add: find_if_eq_length)
  then have "takeWhile (\<lambda>D. \<not> ptr_eq D DelegatePtr) (Delegates e)
               @ tl (dropWhile (\<lambda>D. \<not> ptr_eq D DelegatePtr) (Delegates e)) = Delegates e"
    by (rule erase_first_absent)
  with True show ?thesis
    by (simp add: RemoveListener_def Let_def)
next
  case False
  then show ?thesis
    by (simp add: RemoveListener_def Let_def vector_erase_find_if)
qed

lemma Disconnect_inactive:
  "\<not> bActive c \<Longrightarrow> Disconnect c h = Inr (c, h)"
  by (simp add: Disconnect_def split: option.splits)

lemma Disconnect_null:
  "Event c = None \<Longrightarrow> Disconnect c h = Inr (c\<lparr> bActive := False \<rparr>, h)"
  by (simp add: Disconnect_def)

lemma Disconnect_live:
  assumes "Event c = Some p" and "Delegate c = AnyPtr (Sig (h ! p)) dp"
  shows "Disconnect c h =
           Inr (c\<lparr> bActive := False \<rparr>,
                if bActive c \<and> \<not> bIsBroadcasting (h ! p)
                then h[p := (h ! p)\<lparr> Delegates :=
                        takeWhile (\<lambda>D. \<not> ptr_eq D dp) (Delegates (h ! p))
                        @ tl (dropWhile (\<lambda>D. \<not> ptr_eq D dp) (Delegates (h ! p))) \<rparr>]
                else h)"
  using assms RemoveListener_Connection_result [of c "h ! p" dp]
  by (simp add: Disconnect_def)

text \<open>
  No call changes the signature of an event in the store or removes an event from it, so a
  well-formed connection stays well formed; the connections that the manager returns are
  well formed.
\<close>

lemma AddListener_Sig: "Sig (snd (AddListener F e addr FuncPtr p dup)) = Sig e"
  by (simp add: AddListener_def InsertDelegate_def Let_def)

lemma RemoveListener_Connection_Sig:
  "RemoveListener_Connection e Conn = Inr e' \<Longrightarrow> Sig e' = Sig e"
  by (auto simp: RemoveListener_Connection_def Let_def split: if_splits any_delegate.splits)

lemma Connection_wf_mono:
  assumes "Connection_wf c h" and "length h \<le> length h'"
    and "\<forall>q < length h. Sig (h' ! q) = Sig (h ! q)"
  shows "Connection_wf c h'"
  using assms
  by (auto simp: Connection_wf_def split: option.splits any_delegate.splits)

lemma list_update_keeps_Sig:
  assumes "Sig x = Sig (h ! p)"
  shows "Sig (h[p := x] ! q) = Sig (h ! q)"
proof (cases "p < length h")
  case True
  with assms show ?thesis by (simp add: nth_list_update)
next
  case False
  then have "h[p := x] = h" by (simp add: list_update_beyond)
  then show ?thesis by simp
qed

lemma Manager_AddListener_keeps_Sig:
  "length (snd (Manager_AddListener F ID sig addr FuncPtr p dup m h)) = length h
   \<and> (\<forall>q < length h. Sig (snd (Manager_AddListener F ID sig addr FuncPtr p dup m h) ! q)
                       = Sig (h ! q))"
  using AddListener_Sig [of F "h ! snd (the (Events m ! ID))" addr FuncPtr p dup]
  by (auto simp: Manager_AddListener_def Let_def list_update_keeps_Sig
           split: prod.splits option.splits)

lemma TriggerEvent_keeps_Sig:
  "length (mHeap (TriggerEvent F ID sig InArgs m h w)) = length h
   \<and> (\<forall>q < length h. Sig (mHeap (TriggerEvent F ID sig InArgs m h w) ! q) = Sig (h ! q))"
  by (simp add: TriggerEvent_def Let_def Trigger_void_eq Trigger_value_eq list_update_keeps_Sig)

lemma TriggerEventComplex_keeps_Sig:
  "length (mHeap (TriggerEventComplex F ID sig R0 Adder InArgs m h w)) = length h
   \<and> (\<forall>q < length h. Sig (mHeap (TriggerEventComplex F ID sig R0 Adder InArgs m h w) ! q)
                       = Sig (h ! q))"
  by (simp add: TriggerEventComplex_def Let_def TriggerComplex_value_eq list_update_keeps_Sig)

lemma Disconnect_keeps_Sig:
  "Disconnect c h = Inr (c', h') \<Longrightarrow>
     length h' = length h \<and> (\<forall>q < length h. Sig (h' ! q) = Sig (h ! q))"
  by (auto simp: Disconnect_def list_update_keeps_Sig
           split: option.splits if_splits sum.splits dest: RemoveListener_Connection_Sig)

lemma exec_call_keeps_Sig:
  "length h \<le> length (fst (snd (snd (exec_call F call (m, h, w)))))
   \<and> (\<forall>q < length h. Sig (fst (snd (snd (exec_call F call (m, h, w)))) ! q) = Sig (h ! q))"
proof (cases call)
  case (CallDeclareEvent ID sig CanReplace)
  then show ?thesis by (simp add: DeclareEvent_result nth_append)
next
  case (CallAddEventListener ID sig addr FuncPtr p dup)
  with Manager_AddListener_keeps_Sig [of F ID sig addr FuncPtr p dup m h] show ?thesis
    by (simp add: case_prod_beta)
next
  case (CallTriggerEvent ID sig InArgs)
  with TriggerEvent_keeps_Sig [of F ID sig InArgs m h w] show ?thesis
    by (simp add: Let_def)
next
  case (CallTriggerEventComplex ID sig R0 Adder InArgs)
  with TriggerEventComplex_keeps_Sig [of F ID sig R0 Adder InArgs m h w] show ?thesis
    by (simp add: Let_def)
next
  case (CallDisconnect Conn)
  show ?thesis
  proof (cases "Disconnect Conn h")
    case (Inl x)
    with CallDisconnect show ?thesis by simp
  next
    case (Inr r)
    obtain c' h' where r: "r = (c', h')" by (cases r) auto
    with Inr Disconnect_keeps_Sig [of Conn h c' h'] CallDisconnect show ?thesis by simp
  qed
qed simp_all

lemma exec_calls_keeps_Sig:
  "length h \<le> length (fst (snd (snd (exec_calls F calls (m, h, w)))))
   \<and> (\<forall>q < length h. Sig (fst (snd (snd (exec_calls F calls (m, h, w)))) ! q) = Sig (h ! q))"
proof (induction calls arbitrary: m h w)
  case Nil
  show ?case by simp
next
  case (Cons call calls)
  obtain r m1 h1 w1 where step: "exec_call F call (m, h, w) = (r, m1, h1, w1)"
    by (cases "exec_call F call (m, h, w)") auto
  from exec_call_keeps_Sig [of h F call m w] step
  have 1: "length h \<le> length h1" and 2: "\<forall>q < length h. Sig (h1 ! q) = Sig (h ! q)"
    by auto
  from Cons.IH [of h1 m1 w1]
  have 3: "length h1 \<le> length (fst (snd (snd (exec_calls F calls (m1, h1, w1)))))"
    and 4: "\<forall>q < length h1. Sig (fst (snd (snd (exec_calls F calls (m1, h1, w1)))) ! q)
                              = Sig (h1 ! q)"
    by auto
  have e: "fst (snd (snd (exec_calls F (call # calls) (m, h, w))))
             = fst (snd (snd (exec_calls F calls (m1, h1, w1))))"
    by (simp add: step case_prod_beta)
  from 1 2 3 4 show ?case unfolding e by auto
qed

lemma exec_calls_Connection_wf:
  "Connection_wf c h \<Longrightarrow> Connection_wf c (fst (snd (snd (exec_calls F calls (m, h, w)))))"
  using exec_calls_keeps_Sig [of h F calls m w] by (blast intro: Connection_wf_mono)

lemma Manager_AddListener_Connection_wf:
  assumes "Manager_wf m h" and "ID < length (Events m)"
  shows "Connection_wf (fst (Manager_AddListener F ID sig addr FuncPtr p dup m h))
           (snd (Manager_AddListener F ID sig addr FuncPtr p dup m h))"
proof (cases "slot_mismatch (Events m ! ID) sig")
  case True
  then show ?thesis
    by (simp add: Manager_AddListener_def Connection_wf_def Connection_error_def)
next
  case False
  then obtain q where slot: "Events m ! ID = Some (sig, q)"
    by (auto simp: slot_mismatch_def split: option.splits)
  from assms slot have q: "q < length h" and s: "Sig (h ! q) = sig"
    by (auto simp: Manager_wf_def list_all_length)
  from q s AddListener_Sig [of F "h ! q" addr FuncPtr p dup] show ?thesis
    by (auto simp: Manager_AddListener_def slot slot_mismatch_def Let_def Connection_wf_def
          Connection_error_def Connection_new_def split: prod.splits option.splits)
qed
lemma Manager_wf_new: "Manager_wf (Manager_new Count) h"
  by (simp add: Manager_wf_def Manager_new_def list_all_length)

lemma Manager_wf_mono:
  assumes "Manager_wf m h" and "length h \<le> length h'"
    and "\<forall>q < length h. Sig (h' ! q) = Sig (h ! q)"
    and "Events m' = Events m"
  shows "Manager_wf m' h'"
  using assms
  by (auto simp: Manager_wf_def list_all_length split: option.splits)

lemma Manager_wf_DeclareEvent:
  assumes "Manager_wf m h"
  shows "Manager_wf (fst (snd (DeclareEvent ID sig CanReplace m h)))
           (snd (snd (DeclareEvent ID sig CanReplace m h)))"
proof (cases "CanReplace \<or> Events m ! ID = None")
  case False
  with assms show ?thesis by (auto simp: DeclareEvent_result)
next
  case True
  have "case ((Events m)[ID := Some (sig, length h)]) ! j of
          None \<Rightarrow> True
        | Some (T, p) \<Rightarrow> p < length (h @ [LEvent_new sig]) \<and> Sig ((h @ [LEvent_new sig]) ! p) = T"
    if j: "j < length (Events m)" for j
  proof (cases "j = ID")
    case True
    with j show ?thesis by (simp add: LEvent_new_def)
  next
    case False
    with assms j show ?thesis
      by (auto simp: Manager_wf_def list_all_length nth_append split: option.splits)
  qed
  with True show ?thesis
    by (simp add: DeclareEvent_result Manager_wf_def list_all_length)
qed

lemma exec_call_Manager_wf:
  assumes "Manager_wf m h"
  shows "Manager_wf (fst (snd (exec_call F call (m, h, w))))
           (fst (snd (snd (exec_call F call (m, h, w)))))"
proof (cases call)
  case (CallBlockEvents b)
  with assms show ?thesis by (simp add: Manager_wf_def BlockEvents_def)
next
  case (CallDeclareEvent ID sig CanReplace)
  with Manager_wf_DeclareEvent [OF assms, of ID sig CanReplace] show ?thesis
    by (simp add: case_prod_beta)
next
  case CallDestroyAll
  then show ?thesis by (simp add: Manager_wf_def DestroyAll_def list_all_length)
next
  case (CallAddEventListener ID sig addr FuncPtr p dup)
  then have "Events (fst (snd (exec_call F call (m, h, w)))) = Events m"
    by (simp add: case_prod_beta)
  with exec_call_keeps_Sig [of h F call m w] assms show ?thesis
    by (blast intro: Manager_wf_mono)
next
  case (CallTriggerEvent ID sig InArgs)
  then have "Events (fst (snd (exec_call F call (m, h, w)))) = Events m"
    by (simp add: Let_def)
  with exec_call_keeps_Sig [of h F call m w] assms show ?thesis
    by (blast intro: Manager_wf_mono)
next
  case (CallTriggerEventComplex ID sig R0 Adder InArgs)
  then have "Events (fst (snd (exec_call F call (m, h, w)))) = Events m"
    by (simp add: Let_def)
  with exec_call_keeps_Sig [of h F call m w] assms show ?thesis
    by (blast intro: Manager_wf_mono)
next
  case (CallDisconnect Conn)
  then have "Events (fst (snd (exec_call F call (m, h, w)))) = Events m"
    by (simp split: sum.splits prod.splits)
  with exec_call_keeps_Sig [of h F call m w] assms show ?thesis
    by (blast intro: Manager_wf_mono)
qed

lemma exec_call_length_Events:
  "length (Events (fst (snd (exec_call F call (m, h, w))))) = length (Events m)"
  by (cases call)
     (simp_all add: BlockEvents_def DeclareEvent_result DestroyAll_def Let_def case_prod_beta
        split: sum.splits)

lemma exec_calls_Manager_wf:
  "Manager_wf m h \<Longrightarrow>
     Manager_wf (fst (snd (exec_calls F calls (m, h, w))))
       (fst (snd (snd (exec_calls F calls (m, h, w)))))
     \<and> length (Events (fst (snd (exec_calls F calls (m, h, w))))) = length (Events m)"
proof (induction calls arbitrary: m h w)
  case Nil
  then show ?case by simp
next
  case (Cons call calls)
  obtain r m1 h1 w1 where step: "exec_call F call (m, h, w) = (r, m1, h1, w1)"
    by (cases "exec_call F call (m, h, w)") auto
  from exec_call_Manager_wf [OF Cons.prems, of F call w] step
  have 1: "Manager_wf m1 h1" by simp
  from exec_call_length_Events [of F call m h w] step
  have 2: "length (Events m1) = length (Events m)" by simp
  have e: "snd (exec_calls F (call # calls) (m, h, w)) = snd (exec_calls F calls (m1, h1, w1))"
    by (simp add: step case_prod_beta)
  from Cons.IH [OF 1, of w1] 2 show ?case unfolding e by simp
qed

lemma reachable_Manager_AddListener_Connection_wf:
  assumes "ID < Count"
  shows "Connection_wf
           (fst (Manager_AddListener F ID sig addr FuncPtr p dup
                   (fst (snd (exec_calls F calls (Manager_new Count, [], w))))
                   (fst (snd (snd (exec_calls F calls (Manager_new Count, [], w)))))))
           (snd (Manager_AddListener F ID sig addr FuncPtr p dup
                   (fst (snd (exec_calls F calls (Manager_new Count, [], w))))
                   (fst (snd (snd (exec_calls F calls (Manager_new Count, [], w)))))))"
proof -
  from exec_calls_Manager_wf [OF Manager_wf_new, of F calls Count "[]" w]
  have 1: "Manager_wf (fst (snd (exec_calls F calls (Manager_new Count, [], w))))
             (fst (snd (snd (exec_calls F calls (Manager_new Count, [], w)))))"
    and 2: "length (Events (fst (snd (exec_calls F calls (Manager_new Count, [], w))))) = Count"
    by (simp_all add: Manager_new_def)
  from assms 2 have 3: "ID < length (Events (fst (snd (exec_calls F calls
                                                          (Manager_new Count, [], w)))))"
    by simp
  show ?thesis by (rule Manager_AddListener_Connection_wf [OF 1 3])
qed

text \<open>
  C7. \<^verbatim>\<open>Disconnect\<close> on a well-formed connection throws nothing and leaves the connection
  inactive; a second \<^verbatim>\<open>Disconnect\<close>, in the same or in any later store, changes
  nothing. The first one leaves every other event as it is and, in the event of the
  connection, the signature, the flag and the delegates at other addresses than the
  connection's, in their order; when no delegate of the event is at the connection's
  address, the store is unchanged, and when the connection is active and the event not
  broadcasting, the first delegate at that address is erased. \<^verbatim>\<open>RemoveListener\<close> for a
  pointer that is not in the sequence returns \<^verbatim>\<open>OK\<close> and changes nothing. A
  well-formed connection stays well formed whatever is called later, the replacement of
  its event in the slot and \<^verbatim>\<open>DestroyAll\<close> included, and every connection that
  the manager returns, after any sequence of calls from its construction on, is well
  formed.
\<close>

theorem Disconnect_idempotent_never_fails:
  "Connection_wf c h \<Longrightarrow>
     (\<exists>h'. Disconnect c h = Inr (c\<lparr> bActive := False \<rparr>, h')
        \<and> Disconnect (c\<lparr> bActive := False \<rparr>) h' = Inr (c\<lparr> bActive := False \<rparr>, h')
        \<and> length h' = length h
        \<and> (\<forall>q. Event c \<noteq> Some q \<longrightarrow> h' ! q = h ! q)
        \<and> (\<forall>p T dp. Event c = Some p \<and> Delegate c = AnyPtr T dp \<longrightarrow>
              Sig (h' ! p) = Sig (h ! p)
              \<and> bIsBroadcasting (h' ! p) = bIsBroadcasting (h ! p)
              \<and> filter (\<lambda>D. \<not> ptr_eq D dp) (Delegates (h' ! p))
                  = filter (\<lambda>D. \<not> ptr_eq D dp) (Delegates (h ! p))
              \<and> ((\<forall>D \<in> set (Delegates (h ! p)). \<not> ptr_eq D dp) \<longrightarrow> h' = h)
              \<and> (bActive c \<and> \<not> bIsBroadcasting (h ! p) \<longrightarrow>
                   Delegates (h' ! p)
                     = takeWhile (\<lambda>D. \<not> ptr_eq D dp) (Delegates (h ! p))
                       @ tl (dropWhile (\<lambda>D. \<not> ptr_eq D dp) (Delegates (h ! p))))))
     \<and> (\<forall>h2. Disconnect (c\<lparr> bActive := False \<rparr>) h2 = Inr (c\<lparr> bActive := False \<rparr>, h2))
     \<and> (\<forall>e dp. \<not> bIsBroadcasting e \<and> (\<forall>D \<in> set (Delegates e). \<not> ptr_eq D dp) \<longrightarrow>
           RemoveListener e dp = (OK, e))
     \<and> Connection_wf c (fst (snd (snd (exec_calls F calls (m, h, w)))))
     \<and> (ID < Count \<longrightarrow>
          Connection_wf
            (fst (Manager_AddListener F ID sig addr FuncPtr p dup
                    (fst (snd (exec_calls F calls0 (Manager_new Count, [], w0))))
                    (fst (snd (snd (exec_calls F calls0 (Manager_new Count, [], w0)))))))
            (snd (Manager_AddListener F ID sig addr FuncPtr p dup
                    (fst (snd (exec_calls F calls0 (Manager_new Count, [], w0))))
                    (fst (snd (snd (exec_calls F calls0 (Manager_new Count, [], w0))))))))"
proof (intro conjI)
  assume wf: "Connection_wf c h"
  have inact: "Disconnect (c\<lparr> bActive := False \<rparr>) h2 = Inr (c\<lparr> bActive := False \<rparr>, h2)" for h2
    using Disconnect_inactive [of "c\<lparr> bActive := False \<rparr>" h2] by simp
  show "\<forall>h2. Disconnect (c\<lparr> bActive := False \<rparr>) h2 = Inr (c\<lparr> bActive := False \<rparr>, h2)"
    using inact by blast
  show "Connection_wf c (fst (snd (snd (exec_calls F calls (m, h, w)))))"
    using wf by (rule exec_calls_Connection_wf)
  show "ID < Count \<longrightarrow>
          Connection_wf
            (fst (Manager_AddListener F ID sig addr FuncPtr p dup
                    (fst (snd (exec_calls F calls0 (Manager_new Count, [], w0))))
                    (fst (snd (snd (exec_calls F calls0 (Manager_new Count, [], w0)))))))
            (snd (Manager_AddListener F ID sig addr FuncPtr p dup
                    (fst (snd (exec_calls F calls0 (Manager_new Count, [], w0))))
                    (fst (snd (snd (exec_calls F calls0 (Manager_new Count, [], w0)))))))"
    by (rule impI) (rule reachable_Manager_AddListener_Connection_wf)
  show "\<forall>e dp. \<not> bIsBroadcasting e \<and> (\<forall>D \<in> set (Delegates e). \<not> ptr_eq D dp) \<longrightarrow>
           RemoveListener e dp = (OK, e)"
    by (simp add: RemoveListener_result erase_first_absent)
  show "\<exists>h'. Disconnect c h = Inr (c\<lparr> bActive := False \<rparr>, h')
        \<and> Disconnect (c\<lparr> bActive := False \<rparr>) h' = Inr (c\<lparr> bActive := False \<rparr>, h')
        \<and> length h' = length h
        \<and> (\<forall>q. Event c \<noteq> Some q \<longrightarrow> h' ! q = h ! q)
        \<and> (\<forall>p T dp. Event c = Some p \<and> Delegate c = AnyPtr T dp \<longrightarrow>
              Sig (h' ! p) = Sig (h ! p)
              \<and> bIsBroadcasting (h' ! p) = bIsBroadcasting (h ! p)
              \<and> filter (\<lambda>D. \<not> ptr_eq D dp) (Delegates (h' ! p))
                  = filter (\<lambda>D. \<not> ptr_eq D dp) (Delegates (h ! p))
              \<and> ((\<forall>D \<in> set (Delegates (h ! p)). \<not> ptr_eq D dp) \<longrightarrow> h' = h)
              \<and> (bActive c \<and> \<not> bIsBroadcasting (h ! p) \<longrightarrow>
                   Delegates (h' ! p)
                     = takeWhile (\<lambda>D. \<not> ptr_eq D dp) (Delegates (h ! p))
                       @ tl (dropWhile (\<lambda>D. \<not> ptr_eq D dp) (Delegates (h ! p)))))"
  proof (cases "Event c")
    case None
    with Disconnect_null [OF None, of h] inact [of h] show ?thesis by simp
  next
    case (Some p)
    with wf obtain dp where lt: "p < length h" and dg: "Delegate c = AnyPtr (Sig (h ! p)) dp"
      by (auto simp: Connection_wf_def split: any_delegate.splits)
    let ?h' = "if bActive c \<and> \<not> bIsBroadcasting (h ! p)
                then h[p := (h ! p)\<lparr> Delegates :=
                        takeWhile (\<lambda>D. \<not> ptr_eq D dp) (Delegates (h ! p))
                        @ tl (dropWhile (\<lambda>D. \<not> ptr_eq D dp) (Delegates (h ! p))) \<rparr>]
                else h"
    have d: "Disconnect c h = Inr (c\<lparr> bActive := False \<rparr>, ?h')"
      by (rule Disconnect_live [OF Some dg])
    have l: "length ?h' = length h" by simp
    have o: "\<forall>q. Event c \<noteq> Some q \<longrightarrow> ?h' ! q = h ! q"
      using Some by auto
    have s: "Sig (?h' ! p) = Sig (h ! p)"
      and b: "bIsBroadcasting (?h' ! p) = bIsBroadcasting (h ! p)"
      using lt by auto
    have f: "filter (\<lambda>D. \<not> ptr_eq D dp) (Delegates (?h' ! p))
               = filter (\<lambda>D. \<not> ptr_eq D dp) (Delegates (h ! p))"
      using lt filter_erase_first [of "\<lambda>D. ptr_eq D dp" "Delegates (h ! p)"]
      by (simp del: filter_append)
    have a: "(\<forall>D \<in> set (Delegates (h ! p)). \<not> ptr_eq D dp) \<longrightarrow> ?h' = h"
      by (simp add: erase_first_absent)
    have r: "bActive c \<and> \<not> bIsBroadcasting (h ! p) \<longrightarrow>
               Delegates (?h' ! p)
                 = takeWhile (\<lambda>D. \<not> ptr_eq D dp) (Delegates (h ! p))
                   @ tl (dropWhile (\<lambda>D. \<not> ptr_eq D dp) (Delegates (h ! p)))"
      using lt by simp
    from Some dg have u: "Event c = Some p' \<and> Delegate c = AnyPtr T dp' \<longrightarrow> p' = p \<and> dp' = dp"
      for p' T dp'
      by simp
    show ?thesis
    proof (intro exI [of _ ?h'] conjI allI impI)
      show "Disconnect c h = Inr (c\<lparr> bActive := False \<rparr>, ?h')" by (rule d)
      show "Disconnect (c\<lparr> bActive := False \<rparr>) ?h' = Inr (c\<lparr> bActive := False \<rparr>, ?h')"
        by (rule inact)
      show "length ?h' = length h" by (rule l)
    next
      fix q assume "Event c \<noteq> Some q"
      with o show "?h' ! q = h ! q" by blast
    next
      fix p' T dp' assume e: "Event c = Some p' \<and> Delegate c = AnyPtr T dp'"
      with u have eq: "p' = p" "dp' = dp" by blast+
      show "Sig (?h' ! p') = Sig (h ! p')" unfolding eq by (rule s)
      show "bIsBroadcasting (?h' ! p') = bIsBroadcasting (h ! p')" unfolding eq by (rule b)
      show "filter (\<lambda>D. \<not> ptr_eq D dp') (Delegates (?h' ! p'))
              = filter (\<lambda>D. \<not> ptr_eq D dp') (Delegates (h ! p'))"
        unfolding eq by (rule f)
    next
      fix p' T dp'
      assume e: "Event c = Some p' \<and> Delegate c = AnyPtr T dp'"
        and n: "\<forall>D \<in> set (Delegates (h ! p')). \<not> ptr_eq D dp'"
      from e u have eq: "p' = p" "dp' = dp" by blast+
      from n a show "?h' = h" unfolding eq by blast
    next
      fix p' T dp'
      assume e: "Event c = Some p' \<and> Delegate c = AnyPtr T dp'"
        and n: "bActive c \<and> \<not> bIsBroadcasting (h ! p')"
      from e u have eq: "p' = p" "dp' = dp" by blast+
      from n r show "Delegates (?h' ! p')
                 = takeWhile (\<lambda>D. \<not> ptr_eq D dp') (Delegates (h ! p'))
                   @ tl (dropWhile (\<lambda>D. \<not> ptr_eq D dp') (Delegates (h ! p')))"
        unfolding eq by blast
    qed
  qed
qed
text \<open>
  The connection that the manager returns for the lambda of the showcase. The first \<^verbatim>\<open>Disconnect\<close> erases the
  lambda, the second changes nothing. After the event of the slot has been replaced and
  the calls of \<open>ShowcaseMgrCalls\<close> have been made, the connection's \<^verbatim>\<open>Disconnect\<close>
  still works on the old event and leaves the new one alone.
\<close>

theorem Disconnect_idempotent_never_fails_witness:
  "Manager_AddListener ShowcaseFactory 0 StringSig 3 LambdaListener 1 False ShowcaseMgr
      [\<lparr> Sig = StringSig,
         Delegates = [\<lparr> Addr = 1, Pointee = \<lparr> Callee = FreeListener, Priority = 2 \<rparr> \<rparr>,
                      \<lparr> Addr = 2, Pointee = \<lparr> Callee = MemberListener, Priority = 0 \<rparr> \<rparr>],
         bIsBroadcasting = False \<rparr>]
     = (Connection_new (Some 0) StringSig
          (Some \<lparr> Addr = 3, Pointee = \<lparr> Callee = LambdaListener, Priority = 1 \<rparr> \<rparr>),
        ShowcaseHeap)
   \<and> Connection_wf
      (Connection_new (Some 0) StringSig
         (Some \<lparr> Addr = 3, Pointee = \<lparr> Callee = LambdaListener, Priority = 1 \<rparr> \<rparr>))
      ShowcaseHeap
   \<and> Disconnect
        (Connection_new (Some 0) StringSig
           (Some \<lparr> Addr = 3, Pointee = \<lparr> Callee = LambdaListener, Priority = 1 \<rparr> \<rparr>))
        ShowcaseHeap
      = Inr ((Connection_new (Some 0) StringSig
               (Some \<lparr> Addr = 3, Pointee = \<lparr> Callee = LambdaListener, Priority = 1 \<rparr> \<rparr>))
               \<lparr> bActive := False \<rparr>,
             [ShowcaseEvent\<lparr> Delegates :=
                [\<lparr> Addr = 1, Pointee = \<lparr> Callee = FreeListener, Priority = 2 \<rparr> \<rparr>,
                 \<lparr> Addr = 2, Pointee = \<lparr> Callee = MemberListener, Priority = 0 \<rparr> \<rparr>] \<rparr>])
   \<and> Disconnect
        ((Connection_new (Some 0) StringSig
           (Some \<lparr> Addr = 3, Pointee = \<lparr> Callee = LambdaListener, Priority = 1 \<rparr> \<rparr>))
           \<lparr> bActive := False \<rparr>)
        [ShowcaseEvent\<lparr> Delegates :=
           [\<lparr> Addr = 1, Pointee = \<lparr> Callee = FreeListener, Priority = 2 \<rparr> \<rparr>,
            \<lparr> Addr = 2, Pointee = \<lparr> Callee = MemberListener, Priority = 0 \<rparr> \<rparr>] \<rparr>]
      = Inr ((Connection_new (Some 0) StringSig
               (Some \<lparr> Addr = 3, Pointee = \<lparr> Callee = LambdaListener, Priority = 1 \<rparr> \<rparr>))
               \<lparr> bActive := False \<rparr>,
             [ShowcaseEvent\<lparr> Delegates :=
                [\<lparr> Addr = 1, Pointee = \<lparr> Callee = FreeListener, Priority = 2 \<rparr> \<rparr>,
                 \<lparr> Addr = 2, Pointee = \<lparr> Callee = MemberListener, Priority = 0 \<rparr> \<rparr>] \<rparr>])
   \<and> fst (snd (snd (exec_calls ShowcaseFactory (CallDeclareEvent 0 StringSig True # ShowcaseMgrCalls)
                        (ShowcaseMgr, ShowcaseHeap, []))))
      = [ShowcaseEvent, LEvent_new StringSig]
   \<and> Connection_wf
        (Connection_new (Some 0) StringSig
           (Some \<lparr> Addr = 3, Pointee = \<lparr> Callee = LambdaListener, Priority = 1 \<rparr> \<rparr>))
        [ShowcaseEvent, LEvent_new StringSig]
   \<and> Disconnect
        (Connection_new (Some 0) StringSig
           (Some \<lparr> Addr = 3, Pointee = \<lparr> Callee = LambdaListener, Priority = 1 \<rparr> \<rparr>))
        [ShowcaseEvent, LEvent_new StringSig]
      = Inr ((Connection_new (Some 0) StringSig
               (Some \<lparr> Addr = 3, Pointee = \<lparr> Callee = LambdaListener, Priority = 1 \<rparr> \<rparr>))
               \<lparr> bActive := False \<rparr>,
             [ShowcaseEvent\<lparr> Delegates :=
                [\<lparr> Addr = 1, Pointee = \<lparr> Callee = FreeListener, Priority = 2 \<rparr> \<rparr>,
                 \<lparr> Addr = 2, Pointee = \<lparr> Callee = MemberListener, Priority = 0 \<rparr> \<rparr>] \<rparr>,
              LEvent_new StringSig])"
proof -
  let ?c = "Connection_new (Some 0) StringSig
         (Some \<lparr> Addr = 3, Pointee = \<lparr> Callee = LambdaListener, Priority = 1 \<rparr> \<rparr>)
         :: ShowcaseDelegate Connection"
  let ?h' = "[ShowcaseEvent\<lparr> Delegates :=
                [\<lparr> Addr = 1, Pointee = \<lparr> Callee = FreeListener, Priority = 2 \<rparr> \<rparr>,
                 \<lparr> Addr = 2, Pointee = \<lparr> Callee = MemberListener, Priority = 0 \<rparr> \<rparr>] \<rparr>]"
  have wf: "Connection_wf ?c ShowcaseHeap"
    by (simp add: Connection_wf_def Connection_new_def ShowcaseHeap_def ShowcaseEvent_eq)
  have ma: "Manager_AddListener ShowcaseFactory 0 StringSig 3 LambdaListener 1 False ShowcaseMgr
      [\<lparr> Sig = StringSig,
         Delegates = [\<lparr> Addr = 1, Pointee = \<lparr> Callee = FreeListener, Priority = 2 \<rparr> \<rparr>,
                      \<lparr> Addr = 2, Pointee = \<lparr> Callee = MemberListener, Priority = 0 \<rparr> \<rparr>],
         bIsBroadcasting = False \<rparr>]
     = (?c, ShowcaseHeap)"
    by (simp add: Manager_AddListener_def ShowcaseMgr_def slot_mismatch_def IsBroadcasting_def
          ShowcaseHeap_def ShowcaseEvent_eq ShowcaseFactory_def SimpleDelegateFactory_def
          AddListener_def InsertDelegate_def vector_insert_def Let_def)
  note T = Disconnect_idempotent_never_fails
             [OF wf, where F = ShowcaseFactory
                and calls = "CallDeclareEvent 0 StringSig True # ShowcaseMgrCalls"
                and m = ShowcaseMgr and w = "[]"]
  have v: "\<not> is_void StringSig" by (simp add: StringSig_def is_void_def)
  have x: "fst (snd (snd (exec_calls ShowcaseFactory
                            (CallDeclareEvent 0 StringSig True # ShowcaseMgrCalls)
                            (ShowcaseMgr, ShowcaseHeap, []))))
             = [ShowcaseEvent, LEvent_new StringSig]"
    by (simp add: ShowcaseMgrCalls_def DeclareEvent_result ShowcaseMgr_def ShowcaseHeap_def
          TriggerEvent_def TriggerEventComplex_def BlockEvents_def slot_mismatch_def v
          Trigger_value_eq Let_def LEvent_new_def)
  have d1: "Disconnect ?c ShowcaseHeap = Inr (?c\<lparr> bActive := False \<rparr>, ?h')"
    by (simp add: Disconnect_def RemoveListener_Connection_def Connection_new_def
          ShowcaseHeap_def ShowcaseEvent_eq ptr_eq_def vector_erase_def Let_def)
  from T have d2: "Disconnect (?c\<lparr> bActive := False \<rparr>) ?h' = Inr (?c\<lparr> bActive := False \<rparr>, ?h')"
    by blast
  from T have "Connection_wf ?c (fst (snd (snd (exec_calls ShowcaseFactory
                            (CallDeclareEvent 0 StringSig True # ShowcaseMgrCalls)
                            (ShowcaseMgr, ShowcaseHeap, [])))))"
    by blast
  then have wf2: "Connection_wf ?c [ShowcaseEvent, LEvent_new StringSig]"
    by (simp only: x)
  have d3: "Disconnect ?c [ShowcaseEvent, LEvent_new StringSig]
              = Inr (?c\<lparr> bActive := False \<rparr>, ?h' @ [LEvent_new StringSig])"
    by (simp add: Disconnect_def RemoveListener_Connection_def
          Connection_new_def ShowcaseEvent_eq ptr_eq_def vector_erase_def Let_def)
  from ma wf d1 d2 x wf2 d3 show ?thesis by simp
qed



text \<open>
  C10, as stated, does not hold for a move assignment of a connection to itself: the
  self-move-assignment leaves the event pointer in place, and the connection still
  converts to true.
\<close>

theorem self_move_assigned_Connection_counterexample:
  "IsActive (((\<lambda>a :: nat. Connection_error OK)
                (1 := Connection_new (Some 0) StringSig
                        (Some \<lparr> Addr = 3,
                                Pointee = \<lparr> Callee = LambdaListener, Priority = 1 \<rparr> \<rparr>))) 1)
   \<and> operator_bool
        (Connection_move_assign AnyEmpty 1 1
           ((\<lambda>a :: nat. Connection_error OK)
              (1 := Connection_new (Some 0) StringSig
                      (Some \<lparr> Addr = 3,
                              Pointee = \<lparr> Callee = LambdaListener, Priority = 1 \<rparr> \<rparr>))) 1)"
  by (simp add: Connection_move_assign_def Connection_new_def IsActive_def operator_bool_def)

text \<open>
  C10, amended. After a move construction, or a move assignment to another connection
  object, from a connection that is active and without error, the moved-from connection
  converts to false, since its event pointer is null, and its \<^verbatim>\<open>IsActive()\<close> is still
  true, since \<^verbatim>\<open>bActive\<close> and \<^verbatim>\<open>Error\<close> are copied and not reset. The target has the
  four members of the source, and the other connections are as they were. A move
  assignment of a connection to itself changes nothing.
\<close>

theorem moved_from_Connection_is_active_but_false:
  "IsActive (cs Other) \<Longrightarrow> this \<noteq> Other \<Longrightarrow>
     \<not> operator_bool (snd (Connection_move residue (cs Other)))
     \<and> IsActive (snd (Connection_move residue (cs Other)))
     \<and> fst (Connection_move residue (cs Other)) = cs Other
     \<and> \<not> operator_bool (Connection_move_assign residue this Other cs Other)
     \<and> IsActive (Connection_move_assign residue this Other cs Other)
     \<and> Connection_move_assign residue this Other cs Other
         = (cs Other)\<lparr> Event := None, Delegate := residue \<rparr>
     \<and> Connection_move_assign residue this Other cs this = cs Other
     \<and> (\<forall>q. q \<noteq> this \<and> q \<noteq> Other \<longrightarrow>
           Connection_move_assign residue this Other cs q = cs q)
     \<and> Connection_move_assign residue Other Other cs = cs"
  by (simp add: IsActive_def operator_bool_def Connection_move_def Connection_move_assign_def
        Let_def)

text \<open>
  The connection for the lambda of the showcase, at address 1, is moved into a new
  connection, and it is move-assigned to the connection at address 2; the moved-from
  \<^verbatim>\<open>std::any\<close> is left empty.
\<close>

theorem moved_from_Connection_is_active_but_false_witness:
  "IsActive (((\<lambda>a :: nat. Connection_error CallbackAlreadyAdded)
                (1 := Connection_new (Some 0) StringSig
                        (Some \<lparr> Addr = 3,
                                Pointee = \<lparr> Callee = LambdaListener, Priority = 1 \<rparr> \<rparr>))) 1)
   \<and> (2 :: nat) \<noteq> 1
   \<and> operator_bool (((\<lambda>a :: nat. Connection_error CallbackAlreadyAdded)
                (1 := Connection_new (Some 0) StringSig
                        (Some \<lparr> Addr = 3,
                                Pointee = \<lparr> Callee = LambdaListener, Priority = 1 \<rparr> \<rparr>))) 1)
   \<and> snd (Connection_move AnyEmpty
            (((\<lambda>a :: nat. Connection_error CallbackAlreadyAdded)
                (1 := Connection_new (Some 0) StringSig
                        (Some \<lparr> Addr = 3,
                                Pointee = \<lparr> Callee = LambdaListener, Priority = 1 \<rparr> \<rparr>))) 1))
      = \<lparr> Event = None, Delegate = AnyEmpty, bActive = True, Error = OK \<rparr>
   \<and> \<not> operator_bool (snd (Connection_move AnyEmpty
            (((\<lambda>a :: nat. Connection_error CallbackAlreadyAdded)
                (1 := Connection_new (Some 0) StringSig
                        (Some \<lparr> Addr = 3,
                                Pointee = \<lparr> Callee = LambdaListener, Priority = 1 \<rparr> \<rparr>))) 1)))
   \<and> IsActive (snd (Connection_move AnyEmpty
            (((\<lambda>a :: nat. Connection_error CallbackAlreadyAdded)
                (1 := Connection_new (Some 0) StringSig
                        (Some \<lparr> Addr = 3,
                                Pointee = \<lparr> Callee = LambdaListener, Priority = 1 \<rparr> \<rparr>))) 1)))
   \<and> Connection_move_assign AnyEmpty 2 1
        ((\<lambda>a :: nat. Connection_error CallbackAlreadyAdded)
           (1 := Connection_new (Some 0) StringSig
                   (Some \<lparr> Addr = 3,
                           Pointee = \<lparr> Callee = LambdaListener, Priority = 1 \<rparr> \<rparr>))) 1
      = \<lparr> Event = None, Delegate = AnyEmpty, bActive = True, Error = OK \<rparr>
   \<and> \<not> operator_bool (Connection_move_assign AnyEmpty 2 1
        ((\<lambda>a :: nat. Connection_error CallbackAlreadyAdded)
           (1 := Connection_new (Some 0) StringSig
                   (Some \<lparr> Addr = 3,
                           Pointee = \<lparr> Callee = LambdaListener, Priority = 1 \<rparr> \<rparr>))) 1)
   \<and> IsActive (Connection_move_assign AnyEmpty 2 1
        ((\<lambda>a :: nat. Connection_error CallbackAlreadyAdded)
           (1 := Connection_new (Some 0) StringSig
                   (Some \<lparr> Addr = 3,
                           Pointee = \<lparr> Callee = LambdaListener, Priority = 1 \<rparr> \<rparr>))) 1)
   \<and> Connection_move_assign AnyEmpty 2 1
        ((\<lambda>a :: nat. Connection_error CallbackAlreadyAdded)
           (1 := Connection_new (Some 0) StringSig
                   (Some \<lparr> Addr = 3,
                           Pointee = \<lparr> Callee = LambdaListener, Priority = 1 \<rparr> \<rparr>))) 2
      = Connection_new (Some 0) StringSig
          (Some \<lparr> Addr = 3, Pointee = \<lparr> Callee = LambdaListener, Priority = 1 \<rparr> \<rparr>)"
proof -
  let ?c = "Connection_new (Some 0) StringSig
              (Some \<lparr> Addr = 3, Pointee = \<lparr> Callee = LambdaListener, Priority = 1 \<rparr> \<rparr>)
            :: ShowcaseDelegate Connection"
  let ?cs = "(\<lambda>a :: nat. Connection_error CallbackAlreadyAdded)(1 := ?c)
             :: nat \<Rightarrow> ShowcaseDelegate Connection"
  have c1: "?cs 1 = ?c" by simp
  have a: "IsActive (?cs 1)" and b: "operator_bool (?cs 1)"
    by (simp_all add: IsActive_def operator_bool_def Connection_new_def)
  have n: "(2 :: nat) \<noteq> 1" by simp
  have r: "(?cs 1)\<lparr> Event := None, Delegate := AnyEmpty \<rparr>
             = \<lparr> Event = None, Delegate = AnyEmpty, bActive = True, Error = OK \<rparr>"
    by (simp add: Connection_new_def)
  have m: "snd (Connection_move AnyEmpty (?cs 1))
             = \<lparr> Event = None, Delegate = AnyEmpty, bActive = True, Error = OK \<rparr>"
    by (simp add: Connection_move_def Connection_new_def)
  note T = moved_from_Connection_is_active_but_false
             [where cs = ?cs and Other = 1 and this = 2 and residue = AnyEmpty, OF a n]
  from T have t1: "\<not> operator_bool (snd (Connection_move AnyEmpty (?cs 1)))"
    and t2: "IsActive (snd (Connection_move AnyEmpty (?cs 1)))"
    and t3: "\<not> operator_bool (Connection_move_assign AnyEmpty 2 1 ?cs 1)"
    and t4: "IsActive (Connection_move_assign AnyEmpty 2 1 ?cs 1)"
    and t5: "Connection_move_assign AnyEmpty 2 1 ?cs 1
               = (?cs 1)\<lparr> Event := None, Delegate := AnyEmpty \<rparr>"
    and t6: "Connection_move_assign AnyEmpty 2 1 ?cs 2 = ?cs 1"
    by blast+
  show ?thesis
  proof (intro conjI)
    show "IsActive (?cs 1)" by (rule a)
    show "(2 :: nat) \<noteq> 1" by (rule n)
    show "operator_bool (?cs 1)" by (rule b)
    show "snd (Connection_move AnyEmpty (?cs 1))
            = \<lparr> Event = None, Delegate = AnyEmpty, bActive = True, Error = OK \<rparr>" by (rule m)
    show "\<not> operator_bool (snd (Connection_move AnyEmpty (?cs 1)))" by (rule t1)
    show "IsActive (snd (Connection_move AnyEmpty (?cs 1)))" by (rule t2)
    show "Connection_move_assign AnyEmpty 2 1 ?cs 1
            = \<lparr> Event = None, Delegate = AnyEmpty, bActive = True, Error = OK \<rparr>"
      using t5 r by simp
    show "\<not> operator_bool (Connection_move_assign AnyEmpty 2 1 ?cs 1)" by (rule t3)
    show "IsActive (Connection_move_assign AnyEmpty 2 1 ?cs 1)" by (rule t4)
    show "Connection_move_assign AnyEmpty 2 1 ?cs 2 = ?c" using t6 c1 by simp
  qed
qed

end
